theory Spec2Isabelle
  imports Complex_Main "HOL-Library.AList"
begin

section \<open>Values, tensors and errors\<close>

text \<open>
  The embedding follows \<^verbatim>\<open>src/sniper.py\<close>. Python floats are modelled as exact reals,
  tensors as the flat list of their elements (the order of \<^verbatim>\<open>view(-1)\<close>), boolean
  tensors as lists of booleans, and dictionaries as association lists in insertion order
  with distinct keys. Every exception of the source is a value \<open>Inl e\<close>.
\<close>

datatype error =
    AssertionError
  | AttributeError
  | KeyError
  | ValueError
  | TypeError
  | ZeroDivisionError
  | RuntimeError
  | IndexError
  | UnboundLocalError
  | FileNotFoundError

type_synonym tensor = "real list"
type_synonym mask = "bool list"
type_synonym masks = "(string \<times> mask) list"
type_synonym named_tensors = "(string \<times> tensor) list"

text \<open>Python's \<^verbatim>\<open>int(x)\<close> on a float truncates towards zero.\<close>

definition py_int :: "real \<Rightarrow> int" where
  "py_int x = (if 0 \<le> x then \<lfloor>x\<rfloor> else \<lceil>x\<rceil>)"

text \<open>Python's true division \<^verbatim>\<open>a / b\<close> raises on a zero divisor.\<close>

definition py_div :: "real \<Rightarrow> real \<Rightarrow> error + real" where
  "py_div a b = (if b = 0 then Inl ZeroDivisionError else Inr (a / b))"

text \<open>
  \<^verbatim>\<open>torch.kthvalue(x, k).values.item()\<close>: the \<open>k\<close>-th smallest element, counting from 1;
  an index outside \<open>1..len(x)\<close> is a runtime error.
\<close>

definition kthvalue :: "tensor \<Rightarrow> int \<Rightarrow> error + real" where
  "kthvalue xs k =
     (if 1 \<le> k \<and> k \<le> int (length xs) then Inr (sort xs ! nat (k - 1)) else Inl RuntimeError)"

text \<open>\<^verbatim>\<open>total_grad > threshold\<close> and \<^verbatim>\<open>mask.sum().item()\<close>.\<close>

definition gt_mask :: "tensor \<Rightarrow> real \<Rightarrow> mask" where
  "gt_mask total_grad threshold = map (\<lambda>g. threshold < g) total_grad"

definition mask_sum :: "mask \<Rightarrow> nat" where
  "mask_sum m = length (filter (\<lambda>b. b) m)"

definition count_false :: "mask \<Rightarrow> nat" where
  "count_false m = length (filter (\<lambda>b. \<not> b) m)"

section \<open>MaskStore: \<^verbatim>\<open>create_masks\<close>\<close>

text \<open>
  One iteration of the loop of \<^verbatim>\<open>create_masks\<close> over \<^verbatim>\<open>total_grads.items()\<close>.
  \<open>shuffle\<close> stands for \<^verbatim>\<open>random.Random(0).shuffle\<close>, a library function taken as a
  parameter. \<^verbatim>\<open>[False] * n\<close> with a negative \<open>n\<close> is the empty list, and
  \<^verbatim>\<open>reshape_as\<close> fails when the number of elements differs.
\<close>

definition create_mask ::
  "(bool list \<Rightarrow> bool list) \<Rightarrow> real \<Rightarrow> real \<Rightarrow> tensor \<Rightarrow> error + mask" where
  "create_mask shuffle threshold max_sparsity total_grad =
     (let msk = gt_mask total_grad threshold;
          nonzero = mask_sum msk;
          numel = length msk
      in case py_div (real nonzero) (real numel) of
           Inl e \<Rightarrow> Inl e
         | Inr ratio \<Rightarrow>
             if 1 - ratio > max_sparsity then
               (case kthvalue total_grad (1 + py_int (max_sparsity * real numel)) of
                  Inl e \<Rightarrow> Inl e
                | Inr param_threshold \<Rightarrow>
                    let msk = gt_mask total_grad param_threshold;
                        nonzero = mask_sum msk
                    in if nonzero = 0 \<and> max_sparsity < 1 then
                         (let num_false = py_int (max_sparsity * real numel);
                              nonzero = int numel - num_false;
                              bools = shuffle (replicate (nat num_false) False @
                                               replicate (nat nonzero) True)
                          in if length bools = numel then Inr bools else Inl RuntimeError)
                       else Inr msk)
             else Inr msk)"

fun create_masks_loop ::
  "(bool list \<Rightarrow> bool list) \<Rightarrow> real \<Rightarrow> real \<Rightarrow> named_tensors \<Rightarrow> error + masks" where
  "create_masks_loop shuffle threshold max_sparsity [] = Inr []"
| "create_masks_loop shuffle threshold max_sparsity ((full_name, total_grad) # rest) =
     (case create_mask shuffle threshold max_sparsity total_grad of
        Inl e \<Rightarrow> Inl e
      | Inr msk \<Rightarrow>
          (case create_masks_loop shuffle threshold max_sparsity rest of
             Inl e \<Rightarrow> Inl e
           | Inr ms \<Rightarrow> Inr ((full_name, msk) # ms)))"

text \<open>\<^verbatim>\<open>torch.cat\<close> of an empty list of tensors is a runtime error.\<close>

definition create_masks ::
  "(bool list \<Rightarrow> bool list) \<Rightarrow> real \<Rightarrow> named_tensors \<Rightarrow> real \<Rightarrow> error + masks" where
  "create_masks shuffle sparsity total_grads max_param_sparsity =
     (if total_grads = [] then Inl RuntimeError
      else
        let flattened_grads = concat (map snd total_grads)
        in case kthvalue flattened_grads
                  (py_int (sparsity / 100 * real (length flattened_grads))) of
             Inl e \<Rightarrow> Inl e
           | Inr threshold \<Rightarrow>
               create_masks_loop shuffle threshold (max_param_sparsity / 100) total_grads)"

section \<open>Qualified names and the module tree\<close>

text \<open>
  A \<^verbatim>\<open>torch.nn.Module\<close> is modelled by what attribute lookup can reach in it: its
  registered tensors (parameters and buffers) and its registered submodules, each a
  dictionary. A tensor is the flat list of its elements; attributes of tensors themselves
  and plain Python attributes of modules are outside the model, so looking them up is an
  \<open>AttributeError\<close>.
\<close>

datatype module = Module (tensors: "(string \<times> tensor) list") (submodules: "(string \<times> module) list")

text \<open>What a name can be bound to: Python's \<^verbatim>\<open>None\<close>, a tensor, or a module.\<close>

datatype attr = ANone | ATensor tensor | AModule module

text \<open>\<^verbatim>\<open>s.split(sep='.')\<close>: never the empty list; the empty string gives \<^verbatim>\<open>['']\<close>.\<close>

fun split_dot :: "string \<Rightarrow> string list" where
  "split_dot [] = [[]]"
| "split_dot (c # cs) =
     (if c = CHR ''.'' then [] # split_dot cs
      else (case split_dot cs of [] \<Rightarrow> [[c]] | w # ws \<Rightarrow> (c # w) # ws))"

text \<open>
  \<^verbatim>\<open>m, n = s.rsplit('.', 1)\<close>: the parts before and after the last dot. Without a dot
  the list has one element and the unpacking raises \<open>ValueError\<close> (here \<open>None\<close>).
\<close>

definition rsplit_dot :: "string \<Rightarrow> (string \<times> string) option" where
  "rsplit_dot s =
     (if CHR ''.'' \<in> set s
      then Some (rev (tl (dropWhile (\<lambda>c. c \<noteq> CHR ''.'') (rev s))),
                 rev (takeWhile (\<lambda>c. c \<noteq> CHR ''.'') (rev s)))
      else None)"

definition startswith :: "string \<Rightarrow> string \<Rightarrow> bool" where
  "startswith s p = (take (length p) s = p)"

text \<open>Python's substring test \<^verbatim>\<open>p in s\<close>.\<close>

fun contains :: "string \<Rightarrow> string \<Rightarrow> bool" where
  "contains [] p = (p = [])"
| "contains (c # cs) p = (startswith (c # cs) p \<or> contains cs p)"

text \<open>
  \<^verbatim>\<open>getattr(obj, name)\<close>. A module looks a name up among its tensors first and its
  submodules next; torch registers no attribute under the empty name.
\<close>

definition getattr :: "attr \<Rightarrow> string \<Rightarrow> error + attr" where
  "getattr obj name =
     (case obj of
        ANone \<Rightarrow> Inl AttributeError
      | ATensor t \<Rightarrow> Inl AttributeError
      | AModule m \<Rightarrow>
          if name = [] then Inl AttributeError
          else (case map_of (tensors m) name of
                  Some t \<Rightarrow> Inr (ATensor t)
                | None \<Rightarrow>
                    (case map_of (submodules m) name of
                       Some c \<Rightarrow> Inr (AModule c)
                     | None \<Rightarrow> Inl AttributeError)))"

text \<open>\<^verbatim>\<open>reduce(getattr, names, model)\<close>.\<close>

fun reduce_getattr :: "string list \<Rightarrow> attr \<Rightarrow> error + attr" where
  "reduce_getattr [] obj = Inr obj"
| "reduce_getattr (name # names) obj =
     (case getattr obj name of Inl e \<Rightarrow> Inl e | Inr a \<Rightarrow> reduce_getattr names a)"

definition get_module_by_name :: "attr \<Rightarrow> string \<Rightarrow> error + attr" where
  "get_module_by_name model access_string = reduce_getattr (split_dot access_string) model"

text \<open>\<^verbatim>\<open>get_module_to_snip\<close> catches \<open>AttributeError\<close> and returns the model itself.\<close>

definition get_module_to_snip :: "attr \<Rightarrow> string \<Rightarrow> error + attr" where
  "get_module_to_snip model snip_module_name =
     (case get_module_by_name model snip_module_name of
        Inr module_to_snip \<Rightarrow> Inr module_to_snip
      | Inl e \<Rightarrow> if e = AttributeError then Inr model else Inl e)"

text \<open>
  \<^verbatim>\<open>will_prune\<close> iterates over \<^verbatim>\<open>exclude_params\<close>, which is \<^verbatim>\<open>None\<close> on an
  object that \<^verbatim>\<open>train\<close> has not configured: a \<open>TypeError\<close>.
\<close>

definition will_prune :: "string \<Rightarrow> string list option \<Rightarrow> error + bool" where
  "will_prune param_name exclude_params =
     (case exclude_params of
        None \<Rightarrow> Inl TypeError
      | Some excl \<Rightarrow>
          Inr (\<not> (\<exists>exclude_param \<in> set excl. contains param_name exclude_param)))"

text \<open>
  \<^verbatim>\<open>[full_name for full_name in names if will_prune(full_name, exclude_params)]\<close>.
\<close>

fun prunable :: "string list option \<Rightarrow> string list \<Rightarrow> error + string list" where
  "prunable exclude_params [] = Inr []"
| "prunable exclude_params (full_name # rest) =
     (case will_prune full_name exclude_params of
        Inl e \<Rightarrow> Inl e
      | Inr keep \<Rightarrow>
          (case prunable exclude_params rest of
             Inl e \<Rightarrow> Inl e
           | Inr names \<Rightarrow> Inr (if keep then full_name # names else names)))"

text \<open>
  The source assigns \<^verbatim>\<open>param.data = ...\<close> on the tensor object it has looked up. With
  the tree as a value, the assignment is a write at the path that the lookup followed:
  \<open>names\<close> through submodules, then the tensor \<open>n\<close>.
\<close>

fun set_data :: "module \<Rightarrow> string list \<Rightarrow> string \<Rightarrow> tensor \<Rightarrow> module" where
  "set_data (Module ts cs) [] n v = Module (AList.update n v ts) cs"
| "set_data (Module ts cs) (a # as) n v =
     (case map_of cs a of
        None \<Rightarrow> Module ts cs
      | Some c \<Rightarrow> Module ts (AList.update a (set_data c as n v) cs))"

definition write_param :: "attr \<Rightarrow> string \<Rightarrow> string \<Rightarrow> tensor \<Rightarrow> attr" where
  "write_param base m n v =
     (case base of
        AModule md \<Rightarrow> AModule (set_data md (split_dot m) n v)
      | other \<Rightarrow> other)"

text \<open>
  \<^verbatim>\<open>last_module = get_module_by_name(module_to_snip, m); param = getattr(last_module, n)\<close>
  followed by a read of \<^verbatim>\<open>param.data\<close>.
\<close>

definition param_data :: "attr \<Rightarrow> string \<Rightarrow> string \<Rightarrow> error + tensor" where
  "param_data base m n =
     (case get_module_by_name base m of
        Inl e \<Rightarrow> Inl e
      | Inr last_module \<Rightarrow>
          (case getattr last_module n of
             Inl e \<Rightarrow> Inl e
           | Inr (ATensor d) \<Rightarrow> Inr d
           | Inr other \<Rightarrow> Inl AttributeError))"

text \<open>The same lookup along a list of attribute names, for stating facts about paths.\<close>

definition param_at :: "attr \<Rightarrow> string list \<Rightarrow> string \<Rightarrow> error + tensor" where
  "param_at base names n =
     (case reduce_getattr names base of
        Inl e \<Rightarrow> Inl e
      | Inr last_module \<Rightarrow>
          (case getattr last_module n of
             Inl e \<Rightarrow> Inl e
           | Inr (ATensor d) \<Rightarrow> Inr d
           | Inr other \<Rightarrow> Inl AttributeError))"

section \<open>ForwardMaskHook\<close>

text \<open>
  Elementwise products of the source; operands of different sizes are a runtime error
  (broadcasting of differently shaped tensors is not modelled).
\<close>

definition bool_to :: "bool \<Rightarrow> real" where
  "bool_to b = (if b then 1 else 0)"

definition mul_mask :: "tensor \<Rightarrow> mask \<Rightarrow> error + tensor" where
  "mul_mask d mk =
     (if length d = length mk then Inr (map2 (\<lambda>x b. x * bool_to b) d mk) else Inl RuntimeError)"

text \<open>The body of the closure returned by \<^verbatim>\<open>get_forward_hook(masks)\<close>.\<close>

fun hook_loop :: "masks \<Rightarrow> attr \<Rightarrow> error + attr" where
  "hook_loop [] module_to_snip = Inr module_to_snip"
| "hook_loop ((full_name, mk) # rest) module_to_snip =
     (case rsplit_dot full_name of
        None \<Rightarrow> Inl ValueError
      | Some (m, n) \<Rightarrow>
          (case param_data module_to_snip m n of
             Inl e \<Rightarrow> Inl e
           | Inr d \<Rightarrow>
               (case mul_mask d mk of
                  Inl e \<Rightarrow> Inl e
                | Inr d' \<Rightarrow> hook_loop rest (write_param module_to_snip m n d'))))"

text \<open>
  A hook closes over the value \<^verbatim>\<open>masks\<close> it was built from, which may be \<^verbatim>\<open>None\<close>;
  \<^verbatim>\<open>None.items()\<close> is an \<open>AttributeError\<close>.
\<close>

definition forward_hook_call :: "masks option \<Rightarrow> attr \<Rightarrow> error + attr" where
  "forward_hook_call captured module_to_snip =
     (case captured of None \<Rightarrow> Inl AttributeError | Some ms \<Rightarrow> hook_loop ms module_to_snip)"

section \<open>WeightRestorer: \<^verbatim>\<open>restore_init\<close>\<close>

text \<open>
  \<^verbatim>\<open>param.data = param_init_values.data * values_to_update.to(param.dtype) + param.data\<close>
  with \<^verbatim>\<open>values_to_update = (param.data == 0.0)\<close>, or its conjunction with the mask.
  The three tensors have one shape here, that of the parameter (an entry of the initial
  values comes from the state dictionary of the same model), and their elements are
  finite numbers: broadcasting and the products of zero with \<open>inf\<close> or \<open>nan\<close> are
  outside the model.
\<close>

definition restore_values :: "tensor \<Rightarrow> tensor \<Rightarrow> mask option \<Rightarrow> error + tensor" where
  "restore_values param_init_values d mk =
     (case (case mk of
              None \<Rightarrow> Inr (map (\<lambda>x. x = 0) d)
            | Some k \<Rightarrow> if length d = length k
                        then Inr (map2 (\<lambda>x b. x = 0 \<and> b) d k) else Inl RuntimeError) of
        Inl e \<Rightarrow> Inl e
      | Inr values_to_update \<Rightarrow>
          if length param_init_values = length d
          then Inr (map2 (+) (map2 (\<lambda>x b. x * bool_to b) param_init_values values_to_update) d)
          else Inl RuntimeError)"

definition restore_param ::
  "attr \<Rightarrow> string \<Rightarrow> string \<Rightarrow> tensor \<Rightarrow> mask option \<Rightarrow> error + attr" where
  "restore_param module_to_snip m n param_init_values mk =
     (case param_data module_to_snip m n of
        Inl e \<Rightarrow> Inl e
      | Inr d \<Rightarrow>
          (case restore_values param_init_values d mk of
             Inl e \<Rightarrow> Inl e
           | Inr d' \<Rightarrow> Inr (write_param module_to_snip m n d')))"

text \<open>The branch \<^verbatim>\<open>self.current_masks is None\<close>: a loop over \<^verbatim>\<open>init_values.items()\<close>.\<close>

fun restore_all :: "string \<Rightarrow> named_tensors \<Rightarrow> attr \<Rightarrow> error + attr" where
  "restore_all snip_module_name [] module_to_snip = Inr module_to_snip"
| "restore_all snip_module_name ((full_name, param_init_values) # rest) module_to_snip =
     (if startswith full_name snip_module_name then
        (case rsplit_dot full_name of
           None \<Rightarrow> Inl ValueError
         | Some (m, n) \<Rightarrow>
             (let drop_len = (if snip_module_name \<noteq> [] then length snip_module_name + 1 else 0)
              in case restore_param module_to_snip (drop drop_len m) n param_init_values None of
                   Inl e \<Rightarrow> Inl e
                 | Inr module_to_snip' \<Rightarrow> restore_all snip_module_name rest module_to_snip'))
      else restore_all snip_module_name rest module_to_snip)"

text \<open>The other branch: a loop over \<^verbatim>\<open>self.current_masks.items()\<close>.\<close>

fun restore_masked :: "string \<Rightarrow> named_tensors \<Rightarrow> masks \<Rightarrow> attr \<Rightarrow> error + attr" where
  "restore_masked snip_module_name init_values [] module_to_snip = Inr module_to_snip"
| "restore_masked snip_module_name init_values ((full_name, mk) # rest) module_to_snip =
     (let prefix = (if snip_module_name \<noteq> [] then snip_module_name @ ''.'' else [])
      in case map_of init_values (prefix @ full_name) of
           None \<Rightarrow> Inl KeyError
         | Some param_init_values \<Rightarrow>
             (case rsplit_dot full_name of
                None \<Rightarrow> Inl ValueError
              | Some (m, n) \<Rightarrow>
                  (case restore_param module_to_snip m n param_init_values (Some mk) of
                     Inl e \<Rightarrow> Inl e
                   | Inr module_to_snip' \<Rightarrow>
                       restore_masked snip_module_name init_values rest module_to_snip')))"

text \<open>
  An update of a tensor keeps its nonzero elements: same size, and every element that was
  nonzero is unchanged.
\<close>

definition keeps_nonzero :: "tensor \<Rightarrow> tensor \<Rightarrow> bool" where
  "keeps_nonzero old new \<longleftrightarrow>
     length new = length old \<and> (\<forall>i < length old. old ! i \<noteq> 0 \<longrightarrow> new ! i = old ! i)"

text \<open>
  The module path and tensor name under which the maskless branch of \<^verbatim>\<open>restore_init\<close>
  looks up the entry \<open>full_name\<close> of the initial values.
\<close>

definition local_name :: "string \<Rightarrow> string \<Rightarrow> (string \<times> string) option" where
  "local_name snip full_name =
     (case rsplit_dot full_name of
        None \<Rightarrow> None
      | Some (m, n) \<Rightarrow> Some (drop (if snip \<noteq> [] then length snip + 1 else 0) m, n))"

section \<open>Optimizers and schedulers\<close>

text \<open>
  An optimizer is its list of parameter groups; a group is a dictionary of which the
  source reads \<^verbatim>\<open>'name'\<close> (possibly absent) and reads and writes \<^verbatim>\<open>'lr'\<close>.
\<close>

record param_group =
  pg_name :: "string option"
  lr :: real

record optimizer =
  param_groups :: "param_group list"

text \<open>
  The class of a scheduler as \<^verbatim>\<open>isinstance\<close> sees it: one of the four classes of
  \<^verbatim>\<open>CLOSED_FORM_LR_SCHEDULERS\<close>, or any other class.
\<close>

datatype sched_class = LambdaLR | CyclicLR | CosineAnnealingWarmRestarts | OneCycleLR | OtherLR

definition CLOSED_FORM_LR_SCHEDULERS :: "sched_class list" where
  "CLOSED_FORM_LR_SCHEDULERS = [LambdaLR, CyclicLR, CosineAnnealingWarmRestarts, OneCycleLR]"

text \<open>
  What the attribute \<^verbatim>\<open>scheduler.step\<close> is bound to: the method of the class, or
  \<^verbatim>\<open>partial(scheduler_step, self=scheduler, lr_factor=f)\<close>, or
  \<^verbatim>\<open>partial(scheduler_step, self=scheduler, lr_factors=fs)\<close>.
\<close>

datatype step_fn = OriginalStep | PartialFactor real | PartialFactors "real list"

text \<open>
  \<open>get_lr\<close> computes the next values from \<open>last_epoch\<close> and the groups' current rates
  (a closed-form scheduler ignores the latter); \<open>get_closed_form_lr\<close> is present when the
  object has the attribute \<^verbatim>\<open>_get_closed_form_lr\<close>.
\<close>

record scheduler =
  sched_class :: sched_class
  sched_step :: step_fn
  step_count :: int
  last_epoch :: int
  get_lr :: "int \<Rightarrow> real list \<Rightarrow> real list"
  get_closed_form_lr :: "(int \<Rightarrow> real list \<Rightarrow> real list) option"
  last_lr :: "real list"

text \<open>\<^verbatim>\<open>for param_group, lr in zip(param_groups, values): param_group['lr'] = lr\<close>.\<close>

fun write_lrs :: "param_group list \<Rightarrow> real list \<Rightarrow> param_group list" where
  "write_lrs (pg # pgs) (v # vs) = pg\<lparr>lr := v\<rparr> # write_lrs pgs vs"
| "write_lrs pgs vs = pgs"

text \<open>
  \<^verbatim>\<open>scheduler_step(self, epoch, lr_factor, lr_factors)\<close>, acting on the scheduler and on
  \<^verbatim>\<open>self.optimizer\<close>. Warnings and printing are left out.
\<close>

definition scheduler_step ::
  "scheduler \<Rightarrow> optimizer \<Rightarrow> int option \<Rightarrow> real option \<Rightarrow> real list option
     \<Rightarrow> scheduler \<times> optimizer" where
  "scheduler_step self opt epoch lr_factor lr_factors =
     (let lrs = map lr (param_groups opt);
          new_epoch = (case epoch of None \<Rightarrow> last_epoch self + 1 | Some e \<Rightarrow> e);
          values = (case epoch of
                      None \<Rightarrow> get_lr self new_epoch lrs
                    | Some e \<Rightarrow>
                        (case get_closed_form_lr self of
                           Some f \<Rightarrow> f new_epoch lrs
                         | None \<Rightarrow> get_lr self new_epoch lrs));
          values = (case lr_factor of
                      Some f \<Rightarrow> map (\<lambda>v. f * v) values
                    | None \<Rightarrow>
                        (case lr_factors of
                           Some fs \<Rightarrow> map2 (\<lambda>factor v. factor * v) fs values
                         | None \<Rightarrow> values));
          pgs = write_lrs (param_groups opt) values
      in (self\<lparr>step_count := step_count self + 1, last_epoch := new_epoch, last_lr := map lr pgs\<rparr>,
          opt\<lparr>param_groups := pgs\<rparr>))"

text \<open>
  A call \<^verbatim>\<open>scheduler.step()\<close> from the training loop. The method of the class is the
  torch function that \<^verbatim>\<open>scheduler_step\<close> was copied from, without factors.
\<close>

definition call_step :: "scheduler \<Rightarrow> optimizer \<Rightarrow> scheduler \<times> optimizer" where
  "call_step sch opt =
     (case sched_step sch of
        OriginalStep \<Rightarrow> scheduler_step sch opt None None None
      | PartialFactor f \<Rightarrow> scheduler_step sch opt None (Some f) None
      | PartialFactors fs \<Rightarrow> scheduler_step sch opt None None (Some fs))"

section \<open>The training state\<close>

text \<open>
  The fields of \<^verbatim>\<open>SniperTraining\<close> that the modelled methods read or write. The registry
  of forward pre-hooks lives in the pruned module in torch; here it is kept beside it:
  \<open>forward_pre_hooks\<close> maps each live handle to the value of \<^verbatim>\<open>masks\<close> that the hook
  closed over, and \<open>forward_hook\<close> is the handle the object remembers.
\<close>

record sniper =
  schedule :: "(int \<times> real) list"
  snip_module_name :: string
  forward_mask :: bool
  scale_lr :: bool
  scale_lr_by_param :: bool
  max_lr_scaling :: real
  max_param_sparsity :: real
  exclude_params :: "string list option"
  restore_init_values :: bool
  resume_epoch :: int
  optim_lrs :: "real list option"
  track_all_params_lr :: bool
  epoch :: int
  init_values :: "named_tensors option"
  current_sparsity :: real
  current_masks :: "masks option"
  module_to_snip :: attr
  forward_hook :: "nat option"
  track_pg_indices :: "int list option"
  optimizers :: "optimizer list"
  schedulers :: "scheduler list"
  step_fns :: "step_fn list"
  update_step_fns :: "bool list"
  lr_factor :: real
  optim_lr_factors :: "real list list"
  forward_pre_hooks :: "(nat \<times> masks option) list"
  next_handle :: nat

text \<open>The state that \<^verbatim>\<open>__init__\<close> sets up.\<close>

definition init_sniper :: sniper where
  "init_sniper =
     \<lparr> schedule = [], snip_module_name = [], forward_mask = True, scale_lr = True,
       scale_lr_by_param = False, max_lr_scaling = 2, max_param_sparsity = 100,
       exclude_params = None, restore_init_values = True, resume_epoch = 0, optim_lrs = None,
       track_all_params_lr = False, epoch = 0, init_values = None, current_sparsity = 0,
       current_masks = None, module_to_snip = ANone, forward_hook = None,
       track_pg_indices = None, optimizers = [], schedulers = [], step_fns = [],
       update_step_fns = [], lr_factor = 1, optim_lr_factors = [],
       forward_pre_hooks = [], next_handle = 0 \<rparr>"

text \<open>
  The files under \<^verbatim>\<open>sniper_dir\<close>. A mask file is named after the sparsity and, unless
  the cap is 100, the cap. \<^verbatim>\<open>load_masks\<close> deletes the masks whose name contains an
  excluded string; its inner loop iterates over \<^verbatim>\<open>self.exclude_params\<close> once per mask.
\<close>

record disk =
  init_values_file :: "named_tensors option"
  total_grads_file :: "named_tensors option"
  masks_files :: "((real \<times> real option) \<times> masks) list"

definition masks_path :: "real \<Rightarrow> real \<Rightarrow> real \<times> real option" where
  "masks_path sparsity cap = (sparsity, if cap = 100 then None else Some cap)"

definition load_masks :: "disk \<Rightarrow> sniper \<Rightarrow> real \<Rightarrow> error + masks" where
  "load_masks d self sparsity =
     (case map_of (masks_files d) (masks_path sparsity (max_param_sparsity self)) of
        None \<Rightarrow> Inl FileNotFoundError
      | Some ms \<Rightarrow>
          (case exclude_params self of
             None \<Rightarrow> if ms = [] then Inr ms else Inl TypeError
           | Some excl \<Rightarrow>
               Inr (filter (\<lambda>(full_name, mk).
                      \<not> (\<exists>exclude_param \<in> set excl. contains full_name exclude_param)) ms)))"

text \<open>A loop body that may raise, run over a list in order.\<close>

fun map_err :: "('a \<Rightarrow> error + 'b) \<Rightarrow> 'a list \<Rightarrow> error + 'b list" where
  "map_err f [] = Inr []"
| "map_err f (x # xs) =
     (case f x of
        Inl e \<Rightarrow> Inl e
      | Inr y \<Rightarrow> (case map_err f xs of Inl e \<Rightarrow> Inl e | Inr ys \<Rightarrow> Inr (y # ys)))"

section \<open>ScheduleController: hooks\<close>

text \<open>\<^verbatim>\<open>get_sparsity\<close>: the \<^verbatim>\<open>while\<close> loop counts the leading sorted keys not above \<open>epoch\<close>.\<close>

fun get_sparsity_loop :: "int \<Rightarrow> int list \<Rightarrow> nat" where
  "get_sparsity_loop ep [] = 0"
| "get_sparsity_loop ep (k # ks) = (if ep \<ge> k then Suc (get_sparsity_loop ep ks) else 0)"

text \<open>
  \<^verbatim>\<open>schedule_epochs[i-1]\<close> with \<open>i = 0\<close> is Python's index \<open>-1\<close>, the last element, and an
  \<open>IndexError\<close> on the empty list.
\<close>

definition get_sparsity :: "(int \<times> real) list \<Rightarrow> int \<Rightarrow> error + real" where
  "get_sparsity sched ep =
     (let schedule_epochs = sort (map fst sched);
          i = get_sparsity_loop ep schedule_epochs
      in if schedule_epochs = [] then Inl IndexError
         else
           let match_epoch = (if i = 0 then last schedule_epochs else schedule_epochs ! (i - 1))
           in case map_of sched match_epoch of None \<Rightarrow> Inl KeyError | Some s \<Rightarrow> Inr s)"

text \<open>
  \<^verbatim>\<open>self.module_to_snip.register_forward_pre_hook(hook=get_forward_hook(self.current_masks))\<close>:
  a new handle is added to the registry and returned.
\<close>

definition register_forward_pre_hook :: "sniper \<Rightarrow> error + sniper" where
  "register_forward_pre_hook self =
     (case module_to_snip self of
        AModule md \<Rightarrow>
          Inr (self\<lparr> forward_pre_hooks :=
                       forward_pre_hooks self @ [(next_handle self, current_masks self)],
                     forward_hook := Some (next_handle self),
                     next_handle := Suc (next_handle self) \<rparr>)
      | other \<Rightarrow> Inl AttributeError)"

text \<open>\<^verbatim>\<open>handle.remove()\<close> deletes the handle's entry if it is still in the registry.\<close>

definition remove_handle :: "nat \<Rightarrow> sniper \<Rightarrow> sniper" where
  "remove_handle h self =
     self\<lparr> forward_pre_hooks := filter (\<lambda>(k, captured). k \<noteq> h) (forward_pre_hooks self) \<rparr>"

definition update_hooks :: "sniper \<Rightarrow> real \<Rightarrow> error + sniper" where
  "update_hooks self new_sparsity =
     (let self = (case forward_hook self of None \<Rightarrow> self | Some h \<Rightarrow> remove_handle h self)
      in if new_sparsity \<noteq> 0 then register_forward_pre_hook self
         else Inr (self\<lparr> forward_hook := None \<rparr>))"

definition resume_from :: "sniper \<Rightarrow> int \<Rightarrow> optimizer list \<Rightarrow> scheduler list \<Rightarrow> error + sniper" where
  "resume_from self ep opts scheds =
     (let self = self\<lparr> epoch := ep, optimizers := opts, schedulers := scheds \<rparr>
      in case get_sparsity (schedule self) ep of
           Inl e \<Rightarrow> Inl e
         | Inr resume_sparsity \<Rightarrow> update_hooks self resume_sparsity)"

section \<open>LearningRateCoordinator\<close>

definition scaling_fn :: "sniper \<Rightarrow> real \<Rightarrow> error + real" where
  "scaling_fn self sparsity_ratio =
     (case py_div 1 (1 - sparsity_ratio) of
        Inl e \<Rightarrow> Inl e
      | Inr q \<Rightarrow> Inr (min (max_lr_scaling self) q))"

text \<open>
  The body of the inner loop of \<^verbatim>\<open>update_lrs\<close>: the entry of \<^verbatim>\<open>new_lr_factors\<close> for
  one parameter group. A group without \<^verbatim>\<open>'name'\<close> is a \<open>KeyError\<close>, and
  \<^verbatim>\<open>full_name in None\<close> a \<open>TypeError\<close>.
\<close>

definition group_lr_factor :: "sniper \<Rightarrow> nat \<Rightarrow> real \<Rightarrow> param_group \<Rightarrow> error + real" where
  "group_lr_factor self cutoff new_lr_factor pg =
     (case pg_name pg of
        None \<Rightarrow> Inl KeyError
      | Some model_full_name \<Rightarrow>
          (case current_masks self of
             None \<Rightarrow> Inl TypeError
           | Some ms \<Rightarrow>
               (case map_of ms (drop cutoff model_full_name) of
                  None \<Rightarrow> Inr new_lr_factor
                | Some mk \<Rightarrow>
                    (case py_div (real (mask_sum mk)) (real (length mk)) of
                       Inl e \<Rightarrow> Inl e
                     | Inr density \<Rightarrow>
                         if density \<noteq> 0 then scaling_fn self (1 - density)
                         else Inr new_lr_factor))))"

definition new_optim_lr_factors :: "sniper \<Rightarrow> real \<Rightarrow> error + real list list" where
  "new_optim_lr_factors self new_lr_factor =
     (let cutoff = (if snip_module_name self \<noteq> [] then length (snip_module_name self) + 1 else 0)
      in map_err (\<lambda>optim.
           if scale_lr_by_param self
           then map_err (group_lr_factor self cutoff new_lr_factor) (param_groups optim)
           else Inr (replicate (length (param_groups optim)) new_lr_factor))
         (optimizers self))"

text \<open>\<^verbatim>\<open>lr_ratios = [new / old for new, old in zip(new_lr_factors, old_lr_factors)]\<close>.\<close>

definition lr_ratios :: "real list \<Rightarrow> real list \<Rightarrow> error + real list" where
  "lr_ratios new_lr_factors old_lr_factors =
     map_err (\<lambda>(new, old). py_div new old) (zip new_lr_factors old_lr_factors)"

text \<open>
  \<^verbatim>\<open>for lr_ratio, param_group in zip(lr_ratios, optimizer.param_groups):
  param_group['lr'] *= lr_ratio\<close>.
\<close>

fun scale_lrs :: "real list \<Rightarrow> param_group list \<Rightarrow> param_group list" where
  "scale_lrs (r # rs) (pg # pgs) = pg\<lparr>lr := lr pg * r\<rparr> # scale_lrs rs pgs"
| "scale_lrs rs pgs = pgs"

definition scale_optimizer :: "real list \<Rightarrow> optimizer \<Rightarrow> optimizer" where
  "scale_optimizer ratios opt = opt\<lparr>param_groups := scale_lrs ratios (param_groups opt)\<rparr>"

text \<open>\<^verbatim>\<open>for param_group in optimizer.param_groups: param_group['lr'] *= lr_ratio\<close>.\<close>

definition scale_all :: "real \<Rightarrow> optimizer \<Rightarrow> optimizer" where
  "scale_all lr_ratio opt =
     opt\<lparr>param_groups := map (\<lambda>pg. pg\<lparr>lr := lr pg * lr_ratio\<rparr>) (param_groups opt)\<rparr>"

text \<open>
  The loops of \<^verbatim>\<open>update_lrs\<close> over \<^verbatim>\<open>zip(...)\<close> of several lists stop at the shortest;
  the optimizers and schedulers beyond it stay as they are.
\<close>

fun by_param_sched_loop ::
  "bool list \<Rightarrow> real list list \<Rightarrow> real list list \<Rightarrow> optimizer list \<Rightarrow> scheduler list
     \<Rightarrow> error + (optimizer list \<times> scheduler list)" where
  "by_param_sched_loop (update # us) (old_lr_factors # olds) (new_lr_factors # news)
       (opt # opts) (sch # schs) =
     (if update then
        (case by_param_sched_loop us olds news opts schs of
           Inl e \<Rightarrow> Inl e
         | Inr (opts', schs') \<Rightarrow>
             Inr (opt # opts', sch\<lparr>sched_step := PartialFactors new_lr_factors\<rparr> # schs'))
      else
        (case lr_ratios new_lr_factors old_lr_factors of
           Inl e \<Rightarrow> Inl e
         | Inr ratios \<Rightarrow>
             (case by_param_sched_loop us olds news opts schs of
                Inl e \<Rightarrow> Inl e
              | Inr (opts', schs') \<Rightarrow> Inr (scale_optimizer ratios opt # opts', sch # schs'))))"
| "by_param_sched_loop us olds news opts schs = Inr (opts, schs)"

fun by_param_loop ::
  "real list list \<Rightarrow> real list list \<Rightarrow> optimizer list \<Rightarrow> error + optimizer list" where
  "by_param_loop (old_lr_factors # olds) (new_lr_factors # news) (opt # opts) =
     (case lr_ratios new_lr_factors old_lr_factors of
        Inl e \<Rightarrow> Inl e
      | Inr ratios \<Rightarrow>
          (case by_param_loop olds news opts of
             Inl e \<Rightarrow> Inl e
           | Inr opts' \<Rightarrow> Inr (scale_optimizer ratios opt # opts')))"
| "by_param_loop olds news opts = Inr opts"

fun uniform_sched_loop ::
  "real \<Rightarrow> bool list \<Rightarrow> optimizer list \<Rightarrow> scheduler list \<Rightarrow> optimizer list \<times> scheduler list" where
  "uniform_sched_loop lr_ratio (update # us) (opt # opts) (sch # schs) =
     (let (opts', schs') = uniform_sched_loop lr_ratio us opts schs
      in if update then (opt # opts', sch\<lparr>sched_step := PartialFactor lr_ratio\<rparr> # schs')
         else (scale_all lr_ratio opt # opts', sch # schs'))"
| "uniform_sched_loop lr_ratio us opts schs = (opts, schs)"

definition update_lrs :: "sniper \<Rightarrow> real \<Rightarrow> error + sniper" where
  "update_lrs self new_sparsity =
     (if \<not> scale_lr self \<and> \<not> scale_lr_by_param self then Inr self
      else
        case (if scale_lr self then scaling_fn self (new_sparsity / 100) else Inr 1) of
          Inl e \<Rightarrow> Inl e
        | Inr new_lr_factor \<Rightarrow>
            if scale_lr_by_param self then
              (case new_optim_lr_factors self new_lr_factor of
                 Inl e \<Rightarrow> Inl e
               | Inr new_factors \<Rightarrow>
                   if schedulers self \<noteq> [] then
                     (case by_param_sched_loop (update_step_fns self) (optim_lr_factors self)
                             new_factors (optimizers self) (schedulers self) of
                        Inl e \<Rightarrow> Inl e
                      | Inr (opts', schs') \<Rightarrow>
                          Inr (self\<lparr> optimizers := opts', schedulers := schs',
                                     optim_lr_factors := new_factors \<rparr>))
                   else
                     (case by_param_loop (optim_lr_factors self) new_factors (optimizers self) of
                        Inl e \<Rightarrow> Inl e
                      | Inr opts' \<Rightarrow>
                          Inr (self\<lparr> optimizers := opts', optim_lr_factors := new_factors \<rparr>)))
            else
              (case py_div new_lr_factor (lr_factor self) of
                 Inl e \<Rightarrow> Inl e
               | Inr lr_ratio \<Rightarrow>
                   if schedulers self \<noteq> [] then
                     (let (opts', schs') =
                            uniform_sched_loop lr_ratio (update_step_fns self)
                              (optimizers self) (schedulers self)
                      in Inr (self\<lparr> optimizers := opts', schedulers := schs',
                                    lr_factor := new_lr_factor \<rparr>))
                   else
                     Inr (self\<lparr> optimizers := map (scale_all lr_ratio) (optimizers self),
                                lr_factor := new_lr_factor \<rparr>)))"

text \<open>\<^verbatim>\<open>for param_group in optimizer.param_groups: param_group['lr'] /= self.lr_factor\<close>.\<close>

definition divide_all :: "real \<Rightarrow> optimizer \<Rightarrow> error + optimizer" where
  "divide_all factor opt =
     (case map_err (\<lambda>pg. case py_div (lr pg) factor of
                            Inl e \<Rightarrow> Inl e
                          | Inr v \<Rightarrow> Inr (pg\<lparr>lr := v\<rparr>)) (param_groups opt) of
        Inl e \<Rightarrow> Inl e
      | Inr pgs \<Rightarrow> Inr (opt\<lparr>param_groups := pgs\<rparr>))"

fun reset_sched_loop ::
  "real \<Rightarrow> bool list \<Rightarrow> optimizer list \<Rightarrow> scheduler list \<Rightarrow> step_fn list
     \<Rightarrow> error + (optimizer list \<times> scheduler list)" where
  "reset_sched_loop factor (update # us) (opt # opts) (sch # schs) (step_fn # fns) =
     (if update then
        (case reset_sched_loop factor us opts schs fns of
           Inl e \<Rightarrow> Inl e
         | Inr (opts', schs') \<Rightarrow> Inr (opt # opts', sch\<lparr>sched_step := step_fn\<rparr> # schs'))
      else
        (case divide_all factor opt of
           Inl e \<Rightarrow> Inl e
         | Inr opt' \<Rightarrow>
             (case reset_sched_loop factor us opts schs fns of
                Inl e \<Rightarrow> Inl e
              | Inr (opts', schs') \<Rightarrow> Inr (opt' # opts', sch # schs'))))"
| "reset_sched_loop factor us opts schs fns = Inr (opts, schs)"

text \<open>
  \<^verbatim>\<open>for optim, optim_lr in zip(self.optimizers, self.optim_lrs)\<close>: every group of the
  optimizer gets \<^verbatim>\<open>optim_lr\<close>. The loop stops at the shorter list, and the optimizers
  beyond it stay as they are. \<^verbatim>\<open>zip\<close> of a list and \<^verbatim>\<open>None\<close> is a \<open>TypeError\<close>.
\<close>

fun reset_loop :: "optimizer list \<Rightarrow> real list \<Rightarrow> optimizer list" where
  "reset_loop (optim # opts) (optim_lr # lrs) =
     optim\<lparr>param_groups := map (\<lambda>pg. pg\<lparr>lr := optim_lr\<rparr>) (param_groups optim)\<rparr>
       # reset_loop opts lrs"
| "reset_loop opts lrs = opts"

definition reset_lrs :: "sniper \<Rightarrow> error + sniper" where
  "reset_lrs self =
     (if schedulers self \<noteq> [] then
        (case reset_sched_loop (lr_factor self) (update_step_fns self) (optimizers self)
                (schedulers self) (step_fns self) of
           Inl e \<Rightarrow> Inl e
         | Inr (opts', schs') \<Rightarrow> Inr (self\<lparr> optimizers := opts', schedulers := schs' \<rparr>))
      else
        (case optim_lrs self of
           None \<Rightarrow> Inl TypeError
         | Some lrs \<Rightarrow> Inr (self\<lparr> optimizers := reset_loop (optimizers self) lrs \<rparr>)))"

section \<open>ScheduleController: \<^verbatim>\<open>step\<close>\<close>

text \<open>
  Functions of torch that the source calls on whole models, taken as parameters:
  \<^verbatim>\<open>state_dict\<close>, \<^verbatim>\<open>load_state_dict\<close>, \<^verbatim>\<open>named_parameters\<close>, the gradient of
  \<^verbatim>\<open>get_loss_fn(model, batch)\<close> with respect to the multiplier tensors of the listed
  parameters (\<^verbatim>\<open>torch.autograd.grad\<close>), and \<^verbatim>\<open>random.Random(0).shuffle\<close>.
\<close>

record 'b torch =
  state_dict :: "attr \<Rightarrow> named_tensors"
  load_state_dict :: "attr \<Rightarrow> named_tensors \<Rightarrow> error + attr"
  named_parameters :: "module \<Rightarrow> named_tensors"
  loss_grad :: "attr \<Rightarrow> string list \<Rightarrow> 'b \<Rightarrow> error + tensor list"
  shuffle :: "bool list \<Rightarrow> bool list"

text \<open>
  \<^verbatim>\<open>log_nonzeros_count\<close> divides the number of nonzero elements by the number of
  elements of \<^verbatim>\<open>module_to_snip.parameters()\<close>; it changes nothing.
\<close>

definition log_nonzeros_count :: "'b torch \<Rightarrow> sniper \<Rightarrow> error + sniper" where
  "log_nonzeros_count T self =
     (case module_to_snip self of
        AModule md \<Rightarrow>
          (let nonzeros = sum_list (map (\<lambda>(k, p). length (filter (\<lambda>x. x \<noteq> 0) p))
                                        (named_parameters T md));
               numels = sum_list (map (\<lambda>(k, p). length p) (named_parameters T md))
           in case py_div (real nonzeros) (real numels) of
                Inl e \<Rightarrow> Inl e
              | Inr r \<Rightarrow> Inr self)
      | other \<Rightarrow> Inl AttributeError)"

definition restore_init :: "disk \<Rightarrow> sniper \<Rightarrow> error + sniper" where
  "restore_init d self =
     (case init_values_file d of
        None \<Rightarrow> Inl FileNotFoundError
      | Some init_vals \<Rightarrow>
          (case (case current_masks self of
                   None \<Rightarrow> restore_all (snip_module_name self) init_vals (module_to_snip self)
                 | Some ms \<Rightarrow>
                     restore_masked (snip_module_name self) init_vals ms (module_to_snip self)) of
             Inl e \<Rightarrow> Inl e
           | Inr md \<Rightarrow> Inr (self\<lparr> module_to_snip := md \<rparr>)))"

definition step :: "'b torch \<Rightarrow> disk \<Rightarrow> sniper \<Rightarrow> error + sniper" where
  "step T d self0 =
     (let self = self0\<lparr> epoch := epoch self0 + 1 \<rparr>
      in case map_of (schedule self) (epoch self) of
           None \<Rightarrow> Inr self
         | Some new_sparsity \<Rightarrow>
             (let self = self\<lparr> current_sparsity := new_sparsity \<rparr>
              in case (if new_sparsity \<noteq> 0 then
                         (case load_masks d self new_sparsity of
                            Inl e \<Rightarrow> Inl e
                          | Inr ms \<Rightarrow> update_lrs (self\<lparr> current_masks := Some ms \<rparr>) new_sparsity)
                       else reset_lrs (self\<lparr> current_masks := None \<rparr>)) of
                   Inl e \<Rightarrow> Inl e
                 | Inr self \<Rightarrow>
                     (case (if forward_mask self then update_hooks self new_sparsity
                            else Inr self) of
                        Inl e \<Rightarrow> Inl e
                      | Inr self \<Rightarrow>
                          if restore_init_values self then restore_init d self
                          else log_nonzeros_count T self)))"

section \<open>GradientSensitivity: \<^verbatim>\<open>compute_gradients\<close>\<close>

text \<open>
  \<^verbatim>\<open>load_model\<close>: \<open>built\<close> is the model that \<^verbatim>\<open>model_builder()\<close> returns at every call.
\<close>

definition load_model :: "'b torch \<Rightarrow> attr \<Rightarrow> named_tensors \<Rightarrow> error + attr" where
  "load_model T built init_vals = load_state_dict T built init_vals"

text \<open>
  \<^verbatim>\<open>mask_params\<close> returns one all-ones tensor per name, shaped like the parameter. Its
  second comprehension unpacks each \<^verbatim>\<open>rsplit\<close> and resolves the module, its loop then
  looks the parameter up. In the model it multiplies each parameter by ones, which leaves
  the values as they are.
\<close>

definition mask_params :: "attr \<Rightarrow> string list \<Rightarrow> error + tensor list" where
  "mask_params module_to_snip' params_to_prune =
     (case map_err (\<lambda>full_name.
              case rsplit_dot full_name of
                None \<Rightarrow> Inl ValueError
              | Some (m, n) \<Rightarrow>
                  (case get_module_by_name module_to_snip' m of
                     Inl e \<Rightarrow> Inl e
                   | Inr md \<Rightarrow> Inr (md, n))) params_to_prune of
        Inl e \<Rightarrow> Inl e
      | Inr fmn \<Rightarrow>
          map_err (\<lambda>(md, name).
              case getattr md name of
                Inl e \<Rightarrow> Inl e
              | Inr (ATensor p) \<Rightarrow> Inr (replicate (length p) 1)
              | Inr other \<Rightarrow> Inl TypeError) fmn)"

text \<open>\<^verbatim>\<open>total_grad + grad\<close> on tensors of one shape.\<close>

definition tensor_add :: "tensor \<Rightarrow> tensor \<Rightarrow> error + tensor" where
  "tensor_add a b = (if length a = length b then Inr (map2 (+) a b) else Inl RuntimeError)"

text \<open>
  The loop over \<^verbatim>\<open>self.batch_iterator\<close>: the gradient of the batch's loss is added to the
  running totals, then the model is rebuilt and its parameters are masked again.
\<close>

fun grads_loop ::
  "'b torch \<Rightarrow> sniper \<Rightarrow> attr \<Rightarrow> named_tensors \<Rightarrow> string list \<Rightarrow> attr \<Rightarrow> tensor list \<Rightarrow> 'b list
     \<Rightarrow> error + tensor list" where
  "grads_loop T self built init_vals params_to_prune model total_grads [] = Inr total_grads"
| "grads_loop T self built init_vals params_to_prune model total_grads (batch # rest) =
     (case loss_grad T model params_to_prune batch of
        Inl e \<Rightarrow> Inl e
      | Inr grads \<Rightarrow>
          (case map_err (\<lambda>(total_grad, grad). tensor_add total_grad grad)
                        (zip total_grads grads) of
             Inl e \<Rightarrow> Inl e
           | Inr total_grads' \<Rightarrow>
               (case load_model T built init_vals of
                  Inl e \<Rightarrow> Inl e
                | Inr model' \<Rightarrow>
                    (case get_module_to_snip model' (snip_module_name self) of
                       Inl e \<Rightarrow> Inl e
                     | Inr mts \<Rightarrow>
                         (case mask_params mts params_to_prune of
                            Inl e \<Rightarrow> Inl e
                          | Inr ones \<Rightarrow>
                              grads_loop T self built init_vals params_to_prune model'
                                total_grads' rest)))))"

text \<open>
  Every parameter is taken to require gradients, as torch parameters do unless frozen, so
  the two logged sums cannot fail. With no batch at all the loop variable \<^verbatim>\<open>i\<close> of the
  last logging line is unbound.
\<close>

definition compute_gradients ::
  "'b torch \<Rightarrow> sniper \<Rightarrow> attr \<Rightarrow> 'b list \<Rightarrow> named_tensors \<Rightarrow> error + named_tensors" where
  "compute_gradients T self built batches init_vals =
     (case load_model T built init_vals of
        Inl e \<Rightarrow> Inl e
      | Inr model \<Rightarrow>
          (case get_module_to_snip model (snip_module_name self) of
             Inl e \<Rightarrow> Inl e
           | Inr (AModule md) \<Rightarrow>
               (case prunable (exclude_params self) (map fst (named_parameters T md)) of
                  Inl e \<Rightarrow> Inl e
                | Inr params_to_prune \<Rightarrow>
                    (case mask_params (AModule md) params_to_prune of
                       Inl e \<Rightarrow> Inl e
                     | Inr ones \<Rightarrow>
                         (case grads_loop T self built init_vals params_to_prune model
                                 (map (\<lambda>m. replicate (length m) 0) ones) batches of
                            Inl e \<Rightarrow> Inl e
                          | Inr total_grads \<Rightarrow>
                              if batches = [] then Inl UnboundLocalError
                              else Inr (zip params_to_prune (map (map abs) total_grads)))))
           | Inr other \<Rightarrow> Inl AttributeError))"

section \<open>Setup: \<^verbatim>\<open>train\<close>\<close>

text \<open>The first index of a parameter group whose rate equals \<^verbatim>\<open>optim_lr\<close>, else \<open>-1\<close>.\<close>

fun first_pg_index :: "real \<Rightarrow> param_group list \<Rightarrow> nat \<Rightarrow> int" where
  "first_pg_index optim_lr [] i = - 1"
| "first_pg_index optim_lr (pg # pgs) i =
     (if lr pg = optim_lr then int i else first_pg_index optim_lr pgs (Suc i))"

fun pg_indices_loop :: "optimizer list \<Rightarrow> real list \<Rightarrow> int list" where
  "pg_indices_loop (opt # opts) (optim_lr # lrs) =
     first_pg_index optim_lr (param_groups opt) 0 # pg_indices_loop opts lrs"
| "pg_indices_loop opts lrs = replicate (length opts) (- 1)"

text \<open>The loop that creates and saves the masks of the missing sparsities.\<close>

fun save_masks_loop ::
  "'b torch \<Rightarrow> named_tensors \<Rightarrow> real \<Rightarrow> disk \<Rightarrow> real list \<Rightarrow> error + disk" where
  "save_masks_loop T total_grads cap d [] = Inr d"
| "save_masks_loop T total_grads cap d (sparsity # rest) =
     (case create_masks (shuffle T) sparsity total_grads cap of
        Inl e \<Rightarrow> Inl e
      | Inr ms \<Rightarrow>
          save_masks_loop T total_grads cap
            (d\<lparr> masks_files := AList.update (masks_path sparsity cap) ms (masks_files d) \<rparr>) rest)"

text \<open>
  \<^verbatim>\<open>train\<close>, in the order of the source. Arguments are primed where a field of the
  object has the same name; \<open>built\<close> is what \<^verbatim>\<open>model_builder()\<close> returns. First the
  arguments are stored.
\<close>

definition train_store_args ::
  "sniper \<Rightarrow> (int \<times> real) list \<Rightarrow> real \<Rightarrow> string \<Rightarrow> optimizer list \<Rightarrow> scheduler list
     \<Rightarrow> bool \<Rightarrow> bool \<Rightarrow> bool \<Rightarrow> real \<Rightarrow> real \<Rightarrow> string list \<Rightarrow> bool \<Rightarrow> int \<Rightarrow> real list
     \<Rightarrow> bool \<Rightarrow> sniper" where
  "train_store_args self schedule' start_sparsity snip_module_name' optimizers' schedulers'
         forward_mask' scale_lr' scale_lr_by_param' max_lr_scaling' max_param_sparsity'
         exclude_params' restore_init_values' resume_epoch' optim_lrs' track_all_params_lr' =
     self\<lparr> schedule := schedule', current_sparsity := start_sparsity,
           snip_module_name := snip_module_name', optimizers := optimizers',
           schedulers := schedulers', step_fns := map sched_step schedulers',
           forward_mask := forward_mask', scale_lr := scale_lr',
           scale_lr_by_param := scale_lr_by_param', max_lr_scaling := max_lr_scaling',
           max_param_sparsity := max_param_sparsity', exclude_params := Some exclude_params',
           restore_init_values := restore_init_values', resume_epoch := resume_epoch',
           optim_lrs := Some optim_lrs', track_all_params_lr := track_all_params_lr' \<rparr>"

text \<open>
  The initial values are loaded from their file (and, unless resuming, written into the
  model), or read off the model and saved.
\<close>

definition train_init_values ::
  "'b torch \<Rightarrow> disk \<Rightarrow> attr \<Rightarrow> int \<Rightarrow> error + (named_tensors \<times> attr \<times> disk)" where
  "train_init_values T d model resume_epoch' =
     (case init_values_file d of
        Some init_vals \<Rightarrow>
          if resume_epoch' = 0
          then (case load_state_dict T model init_vals of
                  Inl e \<Rightarrow> Inl e
                | Inr model' \<Rightarrow> Inr (init_vals, model', d))
          else Inr (init_vals, model, d)
      | None \<Rightarrow>
          Inr (state_dict T model, model, d\<lparr> init_values_file := Some (state_dict T model) \<rparr>))"

text \<open>
  The masks of every nonzero sparsity of the schedule that has no file are created from
  the gradients, which are loaded or computed and saved.
\<close>

definition train_missing_masks ::
  "'b torch \<Rightarrow> disk \<Rightarrow> sniper \<Rightarrow> attr \<Rightarrow> 'b list \<Rightarrow> named_tensors \<Rightarrow> error + disk" where
  "train_missing_masks T d self built batch_iterator init_vals =
     (let sparsities = sort (map snd (schedule self));
          missing_sparsities =
            filter (\<lambda>sparsity. sparsity \<noteq> 0 \<and>
                      map_of (masks_files d) (masks_path sparsity (max_param_sparsity self)) = None)
                   sparsities
      in if missing_sparsities \<noteq> [] then
           (case (case total_grads_file d of
                    Some total_grads \<Rightarrow> Inr (total_grads, d)
                  | None \<Rightarrow>
                      (case compute_gradients T self built batch_iterator init_vals of
                         Inl e \<Rightarrow> Inl e
                       | Inr total_grads \<Rightarrow>
                           Inr (total_grads, d\<lparr> total_grads_file := Some total_grads \<rparr>))) of
              Inl e \<Rightarrow> Inl e
            | Inr (total_grads, d) \<Rightarrow>
                save_masks_loop T total_grads (max_param_sparsity self) d
                  (sort (remdups missing_sparsities)))
         else Inr d)"

text \<open>
  The tracked group indices (from the argument \<^verbatim>\<open>optim_lrs\<close>), the closed-form flags and
  the neutral per-group factors.
\<close>

definition train_tracking :: "sniper \<Rightarrow> real list \<Rightarrow> sniper" where
  "train_tracking self optim_lrs' =
     self\<lparr> track_pg_indices :=
             Some (if track_all_params_lr self then replicate (length (optimizers self)) (- 1)
                   else pg_indices_loop (optimizers self) optim_lrs'),
           update_step_fns :=
             map (\<lambda>sch. List.member CLOSED_FORM_LR_SCHEDULERS (sched_class sch)) (schedulers self),
           optim_lr_factors :=
             (if scale_lr_by_param self
              then map (\<lambda>opt. replicate (length (param_groups opt)) 1) (optimizers self)
              else optim_lr_factors self) \<rparr>"

text \<open>The last block: \<^verbatim>\<open>if start_sparsity: ...\<close>.\<close>

definition train_start :: "disk \<Rightarrow> sniper \<Rightarrow> real \<Rightarrow> error + sniper" where
  "train_start d self start_sparsity =
     (if start_sparsity \<noteq> 0 then
        (if optimizers self = [] then Inl AssertionError
         else if resume_epoch self \<noteq> 0
         then resume_from self (resume_epoch self) (optimizers self) (schedulers self)
         else
           (case load_masks d self start_sparsity of
              Inl e \<Rightarrow> Inl e
            | Inr ms \<Rightarrow>
                (case update_lrs (self\<lparr> current_masks := Some ms \<rparr>) start_sparsity of
                   Inl e \<Rightarrow> Inl e
                 | Inr self \<Rightarrow>
                     if forward_mask self then register_forward_pre_hook self
                     else Inr self)))
      else Inr self)"

text \<open>
  The result is the object, the files and the model. \<^verbatim>\<open>self.module_to_snip\<close> refers
  into the model, so it is read off the model after \<^verbatim>\<open>load_state_dict\<close> has written
  to it.
\<close>

definition train ::
  "'b torch \<Rightarrow> disk \<Rightarrow> sniper \<Rightarrow> (int \<times> real) list \<Rightarrow> attr \<Rightarrow> attr \<Rightarrow> string \<Rightarrow> 'b list
     \<Rightarrow> optimizer list \<Rightarrow> scheduler list \<Rightarrow> bool \<Rightarrow> bool \<Rightarrow> bool \<Rightarrow> real \<Rightarrow> real
     \<Rightarrow> string list \<Rightarrow> bool \<Rightarrow> int \<Rightarrow> real list \<Rightarrow> bool
     \<Rightarrow> error + (sniper \<times> disk \<times> attr)" where
  "train T d self0 schedule' model built snip_module_name' batch_iterator optimizers' schedulers'
         forward_mask' scale_lr' scale_lr_by_param' max_lr_scaling' max_param_sparsity'
         exclude_params' restore_init_values' resume_epoch' optim_lrs' track_all_params_lr' =
     (case map_of schedule' 0 of
        None \<Rightarrow> Inl AssertionError
      | Some start_sparsity \<Rightarrow>
          (let self = train_store_args self0 schedule' start_sparsity snip_module_name'
                        optimizers' schedulers' forward_mask' scale_lr' scale_lr_by_param'
                        max_lr_scaling' max_param_sparsity' exclude_params'
                        restore_init_values' resume_epoch' optim_lrs' track_all_params_lr'
           in case train_init_values T d model resume_epoch' of
                Inl e \<Rightarrow> Inl e
              | Inr (init_vals, model, d) \<Rightarrow>
                  (case get_module_to_snip model snip_module_name' of
                     Inl e \<Rightarrow> Inl e
                   | Inr mts \<Rightarrow>
                       (let self = self\<lparr> module_to_snip := mts, init_values := Some init_vals \<rparr>
                        in case train_missing_masks T d self built batch_iterator init_vals of
                             Inl e \<Rightarrow> Inl e
                           | Inr d \<Rightarrow>
                               (case train_start d (train_tracking self optim_lrs')
                                       start_sparsity of
                                  Inl e \<Rightarrow> Inl e
                                | Inr self \<Rightarrow> Inr (self, d, model))))))"

text \<open>Several calls of \<^verbatim>\<open>step\<close> in a row; the first exception ends the run.\<close>

fun steps :: "'b torch \<Rightarrow> disk \<Rightarrow> nat \<Rightarrow> sniper \<Rightarrow> error + sniper" where
  "steps T d 0 self = Inr self"
| "steps T d (Suc k) self =
     (case step T d self of Inl e \<Rightarrow> Inl e | Inr self' \<Rightarrow> steps T d k self')"

section \<open>The accumulation of gradients as the specification words it\<close>

text \<open>
  Section 4.1 of the specification: the absolute value of each batch's gradient is added
  to a running total per parameter. \<open>gradss\<close> lists, for each batch, the gradient of each
  parameter.
\<close>

definition spec_accumulate :: "tensor list \<Rightarrow> tensor list \<Rightarrow> tensor list" where
  "spec_accumulate totals grads = map2 (\<lambda>total grad. map2 (\<lambda>x g. x + \<bar>g\<bar>) total grad) totals grads"

definition spec_total_grads :: "tensor list \<Rightarrow> tensor list list \<Rightarrow> tensor list" where
  "spec_total_grads zeros gradss = foldl spec_accumulate zeros gradss"

section \<open>A small model used to instantiate the theorems\<close>

text \<open>
  A model with one linear layer \<^verbatim>\<open>fc\<close> of four weights, one optimizer with one
  parameter group, and a directory that holds the initial values, the gradients and the
  masks of sparsity 50. A batch is a number, and the gradient of its loss with respect to
  every multiplier is that number.
\<close>

definition ex_model :: attr where
  "ex_model = AModule (Module [] [(''fc'', Module [(''weight'', [1, 2, 3, 4])] [])])"

definition ex_torch :: "real torch" where
  "ex_torch =
     \<lparr> state_dict = (\<lambda>m. [(''fc.weight'', [1, 2, 3, 4])]),
       load_state_dict = (\<lambda>m sd. Inr m),
       named_parameters = (\<lambda>md. [(''fc.weight'', [1, 2, 3, 4])]),
       loss_grad = (\<lambda>m ps b. Inr (map (\<lambda>p. [b, b, b, b]) ps)),
       shuffle = (\<lambda>bools. bools) \<rparr>"

definition ex_disk :: disk where
  "ex_disk =
     \<lparr> init_values_file = Some [(''fc.weight'', [1, 2, 3, 4])],
       total_grads_file = Some [(''fc.weight'', [4, 1, 3, 2])],
       masks_files = [((50, None), [(''fc.weight'', [True, False, True, False])])] \<rparr>"

definition ex_optimizer :: optimizer where
  "ex_optimizer = \<lparr> param_groups = [\<lparr> pg_name = Some ''fc.weight'', lr = 1 \<rparr>] \<rparr>"

text \<open>A second optimizer, with one group at rate 1 that has no \<^verbatim>\<open>'name'\<close>.\<close>

definition ex_second_optimizer :: optimizer where
  "ex_second_optimizer = \<lparr> param_groups = [\<lparr> pg_name = None, lr = 1 \<rparr>] \<rparr>"

text \<open>
  The object after \<^verbatim>\<open>train\<close> has stored its arguments, here the default ones, for a
  schedule that starts at sparsity 50.
\<close>

definition ex_stored :: sniper where
  "ex_stored =
     train_store_args init_sniper [(0, 50)] 50 [] [ex_optimizer] [] True False True 100 100
       [''embed'', ''norm''] True 0 [1] False"

text \<open>
  An object whose pruned module has zeroed weights under a mask, the same object with a
  mask for a parameter that the module does not have, and initial values that do have an
  entry for it.
\<close>

definition ex_pruned :: sniper where
  "ex_pruned =
     init_sniper\<lparr> current_masks := Some [(''fc.weight'', [True, False, True, False])],
                  module_to_snip :=
                    AModule (Module [] [(''fc'', Module [(''weight'', [0, 7, 0, 0])] [])]) \<rparr>"

definition ex_misnamed :: sniper where
  "ex_misnamed = ex_pruned\<lparr> current_masks := Some [(''fc.bias'', [True])] \<rparr>"

definition ex_disk_bias :: disk where
  "ex_disk_bias =
     ex_disk\<lparr> init_values_file := Some [(''fc.weight'', [1, 2, 3, 4]), (''fc.bias'', [5])] \<rparr>"

text \<open>
  The object that prunes the layer \<^verbatim>\<open>fc\<close> itself, with no mask active and zeroed
  weights.
\<close>

definition ex_leaf :: sniper where
  "ex_leaf =
     init_sniper\<lparr> snip_module_name := ''fc'',
                  module_to_snip := AModule (Module [(''weight'', [0, 7, 0, 0])] []) \<rparr>"

text \<open>
  A model with a submodule \<^verbatim>\<open>enc\<close> and, registered before it, a sibling \<^verbatim>\<open>enc_fc\<close>
  whose name begins with the same letters; the object that prunes \<^verbatim>\<open>enc\<close>, with no
  mask active and zeroed weights in \<^verbatim>\<open>enc.fc\<close>; and the saved initial values of that
  model, in the order of its state dictionary.
\<close>

definition ex_enc_model :: attr where
  "ex_enc_model =
     AModule (Module []
       [(''enc_fc'', Module [(''weight'', [5, 5, 5, 5])] []),
        (''enc'', Module [] [(''fc'', Module [(''weight'', [0, 7, 0, 0])] [])])])"

definition ex_enc :: sniper where
  "ex_enc =
     init_sniper\<lparr> snip_module_name := ''enc'',
                  module_to_snip :=
                    AModule (Module [] [(''fc'', Module [(''weight'', [0, 7, 0, 0])] [])]) \<rparr>"

definition ex_enc_disk :: disk where
  "ex_enc_disk =
     \<lparr> init_values_file =
         Some [(''enc_fc.weight'', [9, 9, 9, 9]), (''enc.fc.weight'', [1, 2, 3, 4])],
       total_grads_file = None,
       masks_files = [] \<rparr>"

text \<open>A \<^verbatim>\<open>LambdaLR\<close> scheduler whose closed form is the constant rate 1.\<close>

definition ex_scheduler :: scheduler where
  "ex_scheduler =
     \<lparr> sched_class = LambdaLR, sched_step = OriginalStep, step_count = 0, last_epoch = 0,
       get_lr = (\<lambda>e lrs. [1]), get_closed_form_lr = None, last_lr = [1] \<rparr>"

section \<open>Evaluation rules\<close>

lemmas ex_defs = ex_model_def ex_torch_def ex_disk_def ex_optimizer_def

lemmas train_defs = train_def train_store_args_def train_init_values_def train_missing_masks_def
  train_tracking_def train_start_def init_sniper_def masks_path_def get_module_to_snip_def
  get_module_by_name_def getattr_def

lemmas step_defs = step_def load_masks_def update_lrs_def reset_lrs_def update_hooks_def
  register_forward_pre_hook_def remove_handle_def restore_init_def restore_param_def
  restore_values_def param_data_def write_param_def rsplit_dot_def scaling_fn_def py_div_def
  scale_all_def bool_to_def startswith_def

lemmas grad_defs = compute_gradients_def load_model_def mask_params_def tensor_add_def
  will_prune_def rsplit_dot_def startswith_def

lemmas sched_defs = ex_scheduler_def CLOSED_FORM_LR_SCHEDULERS_def call_step_def
  scheduler_step_def create_masks_def create_mask_def kthvalue_def gt_mask_def mask_sum_def
  py_int_def get_sparsity_def resume_from_def forward_hook_call_def

lemmas restore_defs = restore_init_def restore_param_def restore_values_def param_data_def
  write_param_def rsplit_dot_def get_module_by_name_def getattr_def bool_to_def
  init_sniper_def

lemma Inr_projr: "\<not> isl r \<Longrightarrow> r = Inr (projr r)"
  by (cases r) simp_all

section \<open>Properties of \<^verbatim>\<open>create_masks\<close>\<close>

lemma sort_upt_real: "sort (map real [a..<b]) = map real [a..<b]"
  by (rule sorted_sort_id) (simp add: sorted_map sorted_wrt_map)

lemma gt_mask_upt:
  assumes "a \<le> Suc k" and "Suc k \<le> b"
  shows "gt_mask (map real [a..<b]) (real k) =
           replicate (Suc k - a) False @ replicate (b - Suc k) True"
proof -
  have parts: "[a..<b] = [a..<Suc k] @ [Suc k..<b]"
    using assms by (metis le_Suc_ex upt_add_eq_append)
  have low: "map (\<lambda>g. real k < g) (map real [a..<Suc k]) = replicate (Suc k - a) False"
    by (auto simp del: upt_Suc intro!: nth_equalityI)
  have high: "map (\<lambda>g. real k < g) (map real [Suc k..<b]) = replicate (b - Suc k) True"
    by (auto simp del: upt_Suc intro!: nth_equalityI)
  show ?thesis
    unfolding gt_mask_def parts map_append low high ..
qed

text \<open>
  The branch of the cap, for any input with a cap of at least 0: unless the random fill
  replaces the mask, more than the capped share of the entries is false, because the
  threshold is the value of rank \<open>1 + int(max_sparsity * numel)\<close> and that value itself
  is dropped.
\<close>

lemma filter_length_insort:
  "length (filter P (insort x ys)) = length (filter P (x # (ys :: real list)))"
  by (induction ys) auto

lemma filter_length_sort:
  "length (filter P (sort xs)) = length (filter P (xs :: real list))"
  by (induction xs) (simp_all add: sort_key_simps filter_length_insort del: insort_key.simps)

lemma kthvalue_count:
  assumes "kthvalue xs k = Inr t"
  shows "k \<le> int (length (filter (\<lambda>x. x \<le> t) xs))"
proof -
  from assms have k: "1 \<le> k" "k \<le> int (length xs)" and t: "t = sort xs ! nat (k - 1)"
    by (auto simp: kthvalue_def split: if_splits)
  define j where "j = nat (k - 1)"
  have j: "j < length (sort xs)" "int (Suc j) = k"
    using k by (simp_all add: j_def)
  have "\<forall>x \<in> set (take (Suc j) (sort xs)). x \<le> t"
  proof
    fix x assume "x \<in> set (take (Suc j) (sort xs))"
    then obtain i where "i < Suc j" "x = sort xs ! i"
      using j(1) by (auto simp: in_set_conv_nth)
    then show "x \<le> t"
      unfolding t j_def [symmetric] using j(1) by (auto intro: sorted_nth_mono)
  qed
  then have "filter (\<lambda>x. x \<le> t) (take (Suc j) (sort xs)) = take (Suc j) (sort xs)"
    by simp
  moreover have "filter (\<lambda>x. x \<le> t) (sort xs) =
      filter (\<lambda>x. x \<le> t) (take (Suc j) (sort xs)) @ filter (\<lambda>x. x \<le> t) (drop (Suc j) (sort xs))"
    by (metis append_take_drop_id filter_append)
  ultimately have "Suc j \<le> length (filter (\<lambda>x. x \<le> t) (sort xs))"
    using j(1) by simp
  then show ?thesis
    using j(2) by (simp add: filter_length_sort)
qed

lemma count_false_gt_mask:
  "count_false (gt_mask xs t) = length (filter (\<lambda>x. x \<le> t) xs)"
  by (simp add: count_false_def gt_mask_def filter_map comp_def not_less)

lemma create_mask_cap_branch:
  assumes "create_mask sh threshold max_sparsity xs = Inr msk"
    and "1 - real (mask_sum (gt_mask xs threshold)) / real (length xs) > max_sparsity"
    and "0 \<le> max_sparsity"
  shows "(\<exists>pt. kthvalue xs (1 + py_int (max_sparsity * real (length xs))) = Inr pt \<and>
              mask_sum (gt_mask xs pt) = 0 \<and> max_sparsity < 1) \<or>
         real (count_false msk) > max_sparsity * real (length xs)"
proof -
  have ne: "xs \<noteq> []"
    using assms(1) by (auto simp: create_mask_def gt_mask_def py_div_def Let_def split: if_splits)
  from assms(1,2) ne obtain pt where
    pt: "kthvalue xs (1 + py_int (max_sparsity * real (length xs))) = Inr pt"
    and msk: "(mask_sum (gt_mask xs pt) = 0 \<and> max_sparsity < 1) \<or> msk = gt_mask xs pt"
    by (auto simp: create_mask_def py_div_def Let_def gt_mask_def
             split: if_splits sum.splits)
  show ?thesis
  proof (cases "mask_sum (gt_mask xs pt) = 0 \<and> max_sparsity < 1")
    case True
    with pt show ?thesis by blast
  next
    case False
    with msk have m: "msk = gt_mask xs pt" by blast
    from kthvalue_count [OF pt] have
      "1 + py_int (max_sparsity * real (length xs)) \<le> int (count_false msk)"
      by (simp add: m count_false_gt_mask)
    moreover have "py_int (max_sparsity * real (length xs)) = \<lfloor>max_sparsity * real (length xs)\<rfloor>"
      using assms(3) by (simp add: py_int_def)
    ultimately have "1 + \<lfloor>max_sparsity * real (length xs)\<rfloor> \<le> int (count_false msk)"
      by simp
    then have "max_sparsity * real (length xs) < real_of_int (int (count_false msk))"
      by linarith
    then show ?thesis
      by simp
  qed
qed

text \<open>
  C1. The claim: with a cap \<open>c < 100\<close> every mask of \<^verbatim>\<open>create_masks\<close> has at most
  \<open>c\<close> percent of its entries false; in particular a parameter of 100 elements under
  cap 80, of which the global threshold would zero 95, keeps at most 80 zeroed. The code
  at that scenario (sensitivities \<open>1, ..., 100\<close>, sparsity 95, cap 80): the per-parameter
  threshold is the 81st smallest value and the mask keeps only what is strictly greater,
  so 81 entries are false.
\<close>

theorem C1_cap_scenario_zeroes_81:
  "create_masks sh 95 [(''w'', map real [1..<101])] 80 =
     Inr [(''w'', replicate 81 False @ replicate 19 True)]
   \<and> count_false (replicate 81 False @ replicate 19 True) = 81"
proof -
  define xs where "xs = map real [1..<101]"
  have len: "length xs = 100"
    by (simp add: xs_def del: upt_Suc)
  have global: "kthvalue xs 95 = Inr 95"
    unfolding kthvalue_def xs_def sort_upt_real by (simp del: upt_Suc)
  have local: "kthvalue xs 81 = Inr 81"
    unfolding kthvalue_def xs_def sort_upt_real by (simp del: upt_Suc)
  have m95: "gt_mask xs 95 = replicate 95 False @ replicate 5 True"
    unfolding xs_def using gt_mask_upt [of 1 95 101] by simp
  have m81: "gt_mask xs 81 = replicate 81 False @ replicate 19 True"
    unfolding xs_def using gt_mask_upt [of 1 81 101] by simp
  have one: "create_mask sh 95 (80 / 100) xs = Inr (replicate 81 False @ replicate 19 True)"
    unfolding create_mask_def m95
    by (simp add: mask_sum_def py_div_def py_int_def local m81 Let_def)
  have "create_masks sh 95 [(''w'', xs)] 80 =
          Inr [(''w'', replicate 81 False @ replicate 19 True)]"
    unfolding create_masks_def using one by (simp add: global py_int_def len)
  moreover have "count_false (replicate 81 False @ replicate 19 True) = 81"
    by (simp add: count_false_def)
  ultimately show ?thesis
    unfolding xs_def by simp
qed

section \<open>Properties of the learning-rate coordinator\<close>

lemma update_hooks_frame:
  assumes "update_hooks self s = Inr self'"
  shows "optimizers self' = optimizers self" and "schedulers self' = schedulers self"
    and "optim_lrs self' = optim_lrs self" and "schedule self' = schedule self"
    and "epoch self' = epoch self" and "lr_factor self' = lr_factor self"
    and "scale_lr self' = scale_lr self" and "scale_lr_by_param self' = scale_lr_by_param self"
    and "max_lr_scaling self' = max_lr_scaling self"
    and "current_masks self' = current_masks self"
    and "module_to_snip self' = module_to_snip self"
    and "current_sparsity self' = current_sparsity self"
    and "optim_lr_factors self' = optim_lr_factors self"
    and "update_step_fns self' = update_step_fns self"
    and "step_fns self' = step_fns self"
  using assms
  by (auto simp: update_hooks_def register_forward_pre_hook_def remove_handle_def Let_def
           split: option.splits attr.splits if_splits)

lemma restore_init_frame:
  assumes "restore_init d self = Inr self'"
  shows "optimizers self' = optimizers self" and "schedulers self' = schedulers self"
    and "optim_lrs self' = optim_lrs self" and "schedule self' = schedule self"
    and "epoch self' = epoch self" and "lr_factor self' = lr_factor self"
    and "scale_lr self' = scale_lr self" and "scale_lr_by_param self' = scale_lr_by_param self"
    and "max_lr_scaling self' = max_lr_scaling self"
    and "current_masks self' = current_masks self"
    and "current_sparsity self' = current_sparsity self"
    and "optim_lr_factors self' = optim_lr_factors self"
    and "update_step_fns self' = update_step_fns self"
    and "step_fns self' = step_fns self"
    and "forward_pre_hooks self' = forward_pre_hooks self"
    and "forward_hook self' = forward_hook self"
  using assms
  by (auto simp: restore_init_def split: option.splits sum.splits)

lemma log_nonzeros_count_frame:
  assumes "log_nonzeros_count T self = Inr self'"
  shows "self' = self"
  using assms
  by (auto simp: log_nonzeros_count_def Let_def split: attr.splits sum.splits)

lemma reset_lrs_frame:
  assumes "reset_lrs self = Inr self'"
  shows "optim_lrs self' = optim_lrs self" and "schedule self' = schedule self"
    and "epoch self' = epoch self" and "lr_factor self' = lr_factor self"
    and "scale_lr self' = scale_lr self" and "scale_lr_by_param self' = scale_lr_by_param self"
    and "max_lr_scaling self' = max_lr_scaling self"
    and "current_masks self' = current_masks self"
    and "module_to_snip self' = module_to_snip self"
    and "current_sparsity self' = current_sparsity self"
    and "optim_lr_factors self' = optim_lr_factors self"
    and "update_step_fns self' = update_step_fns self"
    and "step_fns self' = step_fns self"
    and "forward_pre_hooks self' = forward_pre_hooks self"
    and "forward_hook self' = forward_hook self"
  using assms
  by (auto simp: reset_lrs_def split: if_splits sum.splits prod.splits option.splits)

lemma update_lrs_frame:
  assumes "update_lrs self s = Inr self'"
  shows "optim_lrs self' = optim_lrs self" and "schedule self' = schedule self"
    and "epoch self' = epoch self"
    and "scale_lr self' = scale_lr self" and "scale_lr_by_param self' = scale_lr_by_param self"
    and "max_lr_scaling self' = max_lr_scaling self"
    and "current_masks self' = current_masks self"
    and "module_to_snip self' = module_to_snip self"
    and "current_sparsity self' = current_sparsity self"
    and "update_step_fns self' = update_step_fns self"
    and "step_fns self' = step_fns self"
    and "forward_pre_hooks self' = forward_pre_hooks self"
    and "forward_hook self' = forward_hook self"
  using assms
  by (auto simp: update_lrs_def Let_def split: if_splits sum.splits prod.splits)


lemma step_unscheduled:
  "map_of (schedule s) (epoch s + 1) = None \<Longrightarrow> step T d s = Inr (s\<lparr>epoch := epoch s + 1\<rparr>)"
  by (simp add: step_def)

lemma step_scheduled:
  assumes "map_of (schedule s) (epoch s + 1) = Some ns" and "step T d s = Inr s'"
  obtains u v where
    "if ns \<noteq> 0
     then \<exists>ms. load_masks d (s\<lparr>epoch := epoch s + 1, current_sparsity := ns\<rparr>) ns = Inr ms \<and>
            update_lrs (s\<lparr>epoch := epoch s + 1, current_sparsity := ns,
                          current_masks := Some ms\<rparr>) ns = Inr u
     else reset_lrs (s\<lparr>epoch := epoch s + 1, current_sparsity := ns,
                       current_masks := None\<rparr>) = Inr u"
    and "if forward_mask u then update_hooks u ns = Inr v else v = u"
    and "if restore_init_values v then restore_init d v = Inr s'
         else log_nonzeros_count T v = Inr s'"
  using assms
  by (auto simp: step_def Let_def split: sum.splits if_splits)

lemma update_lrs_no_schedulers:
  assumes "update_lrs self s = Inr self'" and "schedulers self = []"
  shows "schedulers self' = []"
  using assms
  by (auto simp: update_lrs_def Let_def split: if_splits sum.splits prod.splits)

lemma reset_lrs_no_schedulers:
  assumes "reset_lrs self = Inr self'" and "schedulers self = []"
  shows "schedulers self' = []"
    and "\<exists>lrs. optim_lrs self = Some lrs \<and> optimizers self' = reset_loop (optimizers self) lrs"
  using assms
  by (auto simp: reset_lrs_def split: if_splits sum.splits prod.splits option.splits)

lemma step_frame:
  assumes "step T d s = Inr s'"
  shows "optim_lrs s' = optim_lrs s" and "schedule s' = schedule s"
    and "epoch s' = epoch s + 1"
    and "scale_lr s' = scale_lr s" and "scale_lr_by_param s' = scale_lr_by_param s"
    and "max_lr_scaling s' = max_lr_scaling s"
    and "schedulers s = [] \<Longrightarrow> schedulers s' = []"
proof -
  have "optim_lrs s' = optim_lrs s \<and> schedule s' = schedule s \<and> epoch s' = epoch s + 1 \<and>
        scale_lr s' = scale_lr s \<and> scale_lr_by_param s' = scale_lr_by_param s \<and>
        max_lr_scaling s' = max_lr_scaling s \<and> (schedulers s = [] \<longrightarrow> schedulers s' = [])"
  proof (cases "map_of (schedule s) (epoch s + 1)")
    case None
    with assms show ?thesis by (auto simp: step_unscheduled)
  next
    case (Some ns)
    from Some assms obtain u v where
      u: "if ns \<noteq> 0
          then \<exists>ms. load_masks d (s\<lparr>epoch := epoch s + 1, current_sparsity := ns\<rparr>) ns = Inr ms \<and>
            update_lrs (s\<lparr>epoch := epoch s + 1, current_sparsity := ns,
                          current_masks := Some ms\<rparr>) ns = Inr u
          else reset_lrs (s\<lparr>epoch := epoch s + 1, current_sparsity := ns,
                       current_masks := None\<rparr>) = Inr u"
      and v: "if forward_mask u then update_hooks u ns = Inr v else v = u"
      and s': "if restore_init_values v then restore_init d v = Inr s'
               else log_nonzeros_count T v = Inr s'"
      by (rule step_scheduled)
    have 1: "optim_lrs u = optim_lrs s \<and> schedule u = schedule s \<and> epoch u = epoch s + 1 \<and>
        scale_lr u = scale_lr s \<and> scale_lr_by_param u = scale_lr_by_param s \<and>
        max_lr_scaling u = max_lr_scaling s \<and> (schedulers s = [] \<longrightarrow> schedulers u = [])"
    proof (cases "ns = 0")
      case True
      with u have r: "reset_lrs (s\<lparr>epoch := epoch s + 1, current_sparsity := ns,
                       current_masks := None\<rparr>) = Inr u"
        by simp
      from reset_lrs_frame [OF r] reset_lrs_no_schedulers(1) [OF r] show ?thesis
        by simp
    next
      case False
      with u obtain ms where r: "update_lrs (s\<lparr>epoch := epoch s + 1, current_sparsity := ns,
                          current_masks := Some ms\<rparr>) ns = Inr u"
        by auto
      from update_lrs_frame [OF r] update_lrs_no_schedulers [OF r] show ?thesis
        by simp
    qed
    have 2: "optim_lrs v = optim_lrs u \<and> schedule v = schedule u \<and> epoch v = epoch u \<and>
        scale_lr v = scale_lr u \<and> scale_lr_by_param v = scale_lr_by_param u \<and>
        max_lr_scaling v = max_lr_scaling u \<and> schedulers v = schedulers u"
      using v by (auto split: if_splits dest: update_hooks_frame)
    have 3: "optim_lrs s' = optim_lrs v \<and> schedule s' = schedule v \<and> epoch s' = epoch v \<and>
        scale_lr s' = scale_lr v \<and> scale_lr_by_param s' = scale_lr_by_param v \<and>
        max_lr_scaling s' = max_lr_scaling v \<and> schedulers s' = schedulers v"
      using s' by (auto split: if_splits dest: restore_init_frame log_nonzeros_count_frame)
    from 1 2 3 show ?thesis by simp
  qed
  then show "optim_lrs s' = optim_lrs s" and "schedule s' = schedule s"
    and "epoch s' = epoch s + 1"
    and "scale_lr s' = scale_lr s" and "scale_lr_by_param s' = scale_lr_by_param s"
    and "max_lr_scaling s' = max_lr_scaling s"
    and "schedulers s = [] \<Longrightarrow> schedulers s' = []"
    by simp_all
qed

lemma train_start_zero:
  assumes "map_of schedule' 0 = Some 0"
    and "train T d self0 schedule' model built snip_module_name' batch_iterator optimizers'
           schedulers' forward_mask' scale_lr' scale_lr_by_param' max_lr_scaling'
           max_param_sparsity' exclude_params' restore_init_values' resume_epoch' optim_lrs'
           track_all_params_lr' = Inr (self, d', m)"
  shows "schedule self = schedule'" and "epoch self = epoch self0"
    and "lr_factor self = lr_factor self0" and "optimizers self = optimizers'"
    and "schedulers self = schedulers'" and "scale_lr self = scale_lr'"
    and "scale_lr_by_param self = scale_lr_by_param'"
    and "max_lr_scaling self = max_lr_scaling'" and "optim_lrs self = Some optim_lrs'"
  using assms
  by (auto simp: train_def train_start_def train_tracking_def train_store_args_def Let_def
           split: sum.splits prod.splits)

lemma update_lrs_uniform:
  assumes "update_lrs self ns = Inr u"
    and "scale_lr self" and "\<not> scale_lr_by_param self" and "schedulers self = []"
  obtains f r where "scaling_fn self (ns / 100) = Inr f" and "py_div f (lr_factor self) = Inr r"
    and "optimizers u = map (scale_all r) (optimizers self)" and "lr_factor u = f"
  using assms
  by (auto simp: update_lrs_def split: sum.splits)

lemma step_optimizers:
  assumes "step T d s = Inr s'"
  obtains "map_of (schedule s) (epoch s + 1) = None" and "optimizers s' = optimizers s"
      and "lr_factor s' = lr_factor s"
    | ns u where "map_of (schedule s) (epoch s + 1) = Some ns" and "ns = 0"
      and "reset_lrs (s\<lparr>epoch := epoch s + 1, current_sparsity := ns,
                       current_masks := None\<rparr>) = Inr u"
      and "optimizers s' = optimizers u" and "lr_factor s' = lr_factor u"
    | ns ms u where "map_of (schedule s) (epoch s + 1) = Some ns" and "ns \<noteq> 0"
      and "update_lrs (s\<lparr>epoch := epoch s + 1, current_sparsity := ns,
                          current_masks := Some ms\<rparr>) ns = Inr u"
      and "optimizers s' = optimizers u" and "lr_factor s' = lr_factor u"
proof (cases "map_of (schedule s) (epoch s + 1)")
  case None
  with assms that(1) show ?thesis by (auto simp: step_unscheduled)
next
  case (Some ns)
  from Some assms obtain u v where
    u: "if ns \<noteq> 0
        then \<exists>ms. load_masks d (s\<lparr>epoch := epoch s + 1, current_sparsity := ns\<rparr>) ns = Inr ms \<and>
            update_lrs (s\<lparr>epoch := epoch s + 1, current_sparsity := ns,
                          current_masks := Some ms\<rparr>) ns = Inr u
        else reset_lrs (s\<lparr>epoch := epoch s + 1, current_sparsity := ns,
                       current_masks := None\<rparr>) = Inr u"
    and v: "if forward_mask u then update_hooks u ns = Inr v else v = u"
    and s': "if restore_init_values v then restore_init d v = Inr s'
             else log_nonzeros_count T v = Inr s'"
    by (rule step_scheduled)
  have "optimizers v = optimizers u \<and> lr_factor v = lr_factor u"
    using v by (auto split: if_splits dest: update_hooks_frame)
  moreover have "optimizers s' = optimizers v \<and> lr_factor s' = lr_factor v"
    using s' by (auto split: if_splits dest: restore_init_frame log_nonzeros_count_frame)
  ultimately have eq: "optimizers s' = optimizers u" "lr_factor s' = lr_factor u"
    by simp_all
  show ?thesis
  proof (cases "ns = 0")
    case True
    with u Some eq that(2) show ?thesis by auto
  next
    case False
    with u Some eq that(3) show ?thesis by auto
  qed
qed

text \<open>
  C10. The claim: for every scheduled sparsity from 0 to 100 the uniform factor
  \<open>min(max_lr_scaling, 1/(1 - sparsity_ratio))\<close> is well defined, the division being
  guarded. The code: at sparsity 100 the ratio is 1, the divisor is 0 and nothing guards
  it, so \<^verbatim>\<open>update_lrs\<close> raises whenever \<^verbatim>\<open>scale_lr\<close> is set.
\<close>

theorem C10_update_lrs_raises_at_100:
  "update_lrs (self\<lparr>scale_lr := True\<rparr>) 100 = Inl ZeroDivisionError"
  by (simp add: update_lrs_def scaling_fn_def py_div_def)

text \<open>
  What the loop of \<^verbatim>\<open>reset_lrs\<close> over \<^verbatim>\<open>zip(self.optimizers, self.optim_lrs)\<close> does
  to the optimizer at position \<open>i\<close>: with an entry of \<^verbatim>\<open>optim_lrs\<close> at that position,
  all its groups get the entry as their rate; without one, it is left as it is.
\<close>

lemma reset_loop_paired:
  "i < length opts \<Longrightarrow> i < length lrs \<Longrightarrow>
     reset_loop opts lrs ! i =
       (opts ! i)\<lparr>param_groups := map (\<lambda>pg. pg\<lparr>lr := lrs ! i\<rparr>) (param_groups (opts ! i))\<rparr>"
proof (induction opts lrs arbitrary: i rule: reset_loop.induct)
  case (1 optim opts optim_lr lrs)
  then show ?case by (cases i) simp_all
qed simp_all

lemma reset_loop_beyond:
  "length lrs \<le> i \<Longrightarrow> reset_loop opts lrs ! i = opts ! i"
proof (induction opts lrs arbitrary: i rule: reset_loop.induct)
  case (1 optim opts optim_lr lrs)
  then show ?case by (cases i) simp_all
qed simp_all

text \<open>
  C5. The claim: without schedulers, after any sequence of transitions that ends back at
  sparsity 0, every parameter group of every optimizer has its optimizer's nominal rate
  again. The code, with two optimizers at rate 1 and the default \<^verbatim>\<open>optim_lrs = (1.0,)\<close>
  under the schedule \<open>{0: 0, 2: 50, 4: 0}\<close>: \<^verbatim>\<open>update_lrs\<close> doubles the rate of both
  optimizers at epoch 2, and at epoch 4 the loop of \<^verbatim>\<open>reset_lrs\<close> over
  \<^verbatim>\<open>zip(self.optimizers, self.optim_lrs)\<close> ends after the first optimizer, so the
  second one keeps the doubled rate at sparsity 0.
\<close>

theorem C5_second_optimizer_stays_scaled:
  "\<exists>s0 d m s2 s4.
     train ex_torch ex_disk init_sniper [(0, 0), (2, 50), (4, 0)] ex_model ex_model [] []
       [ex_optimizer, ex_second_optimizer] [] True True False 2 100 [''embed'', ''norm''] True 0
       [1] False = Inr (s0, d, m) \<and>
     map (\<lambda>opt. map lr (param_groups opt)) (optimizers s0) = [[1], [1]] \<and>
     steps ex_torch d 2 s0 = Inr s2 \<and> epoch s2 = 2 \<and> current_sparsity s2 = 50 \<and>
     map (\<lambda>opt. map lr (param_groups opt)) (optimizers s2) = [[2], [2]] \<and>
     steps ex_torch d 2 s2 = Inr s4 \<and> epoch s4 = 4 \<and> current_sparsity s4 = 0 \<and>
     schedulers s4 = [] \<and> optim_lrs s4 = Some [1] \<and>
     map (\<lambda>opt. map lr (param_groups opt)) (optimizers s4) = [[1], [2]]"
  by (simp add: train_defs step_defs ex_defs ex_second_optimizer_def Let_def numeral_2_eq_2)

text \<open>
  C2. With the schedule \<open>{0: 0, 2: 50, 4: 0}\<close>, one optimizer whose groups all have rate
  1, \<^verbatim>\<open>scale_lr\<close> set, \<^verbatim>\<open>scale_lr_by_param\<close> unset, \<^verbatim>\<open>max_lr_scaling = 2\<close>,
  \<^verbatim>\<open>optim_lrs = (1,)\<close> and no schedulers: after the step that reaches epoch 2 the
  object holds that optimizer with all its groups, each at rate 2, and after the step that
  reaches epoch 4 it holds it with all its groups, each at rate 1. The run starts from
  \<^verbatim>\<open>train\<close> on a fresh object.
\<close>

theorem C2_scenario_lr_2_then_1:
  assumes tr: "train T d0 init_sniper [(0, 0), (2, 50), (4, 0)] model built name batches
                 [opt] [] fm True False 2 cap excl riv re [1] trk = Inr (s0, d, m)"
    and one: "\<forall>pg \<in> set (param_groups opt). lr pg = 1"
    and to2: "steps T d 2 s0 = Inr s2"
    and to4: "steps T d 2 s2 = Inr s4"
  shows "epoch s2 = 2 \<and>
         optimizers s2 = [opt\<lparr>param_groups := map (\<lambda>pg. pg\<lparr>lr := 2\<rparr>) (param_groups opt)\<rparr>] \<and>
         epoch s4 = 4 \<and>
         optimizers s4 = [opt\<lparr>param_groups := map (\<lambda>pg. pg\<lparr>lr := 1\<rparr>) (param_groups opt)\<rparr>]"
proof -
  have z: "map_of [(0, 0), (2, 50), (4, 0)] (0::int) = Some (0::real)"
    by simp
  note t = train_start_zero [OF z tr]
  have s0: "schedule s0 = [(0, 0), (2, 50), (4, 0)]" "epoch s0 = 0" "lr_factor s0 = 1"
    "optimizers s0 = [opt]" "schedulers s0 = []" "scale_lr s0" "\<not> scale_lr_by_param s0"
    "max_lr_scaling s0 = 2" "optim_lrs s0 = Some [1]"
    using t by (simp_all add: init_sniper_def)
  from to2 obtain s1 where s1: "step T d s0 = Inr s1" and s2: "step T d s1 = Inr s2"
    by (auto simp: numeral_2_eq_2 split: sum.splits)
  from to4 obtain s3 where s3: "step T d s2 = Inr s3" and s4: "step T d s3 = Inr s4"
    by (auto simp: numeral_2_eq_2 split: sum.splits)
  note f1 = step_frame [OF s1] and f2 = step_frame [OF s2] and f3 = step_frame [OF s3]
    and f4 = step_frame [OF s4]
  have e1: "optimizers s1 = [opt]" "lr_factor s1 = 1"
    using s1 s0 by (auto elim!: step_optimizers)
  have cfg1: "schedule s1 = [(0, 0), (2, 50), (4, 0)]" "epoch s1 = 1" "schedulers s1 = []"
    "scale_lr s1" "\<not> scale_lr_by_param s1" "max_lr_scaling s1 = 2" "optim_lrs s1 = Some [1]"
    using f1 s0 by simp_all
  from s2 have e2: "optimizers s2 = [scale_all 2 opt] \<and> lr_factor s2 = 2"
  proof (cases rule: step_optimizers)
    case 1
    then show ?thesis using cfg1 by simp
  next
    case (2 ns u)
    then show ?thesis using cfg1 by simp
  next
    case (3 ns ms u)
    then have ns: "ns = 50" using cfg1 by simp
    from 3(3) show ?thesis
    proof (rule update_lrs_uniform)
      fix f r
      assume "scaling_fn (s1\<lparr>epoch := epoch s1 + 1, current_sparsity := ns,
                   current_masks := Some ms\<rparr>) (ns / 100) = Inr f"
        and "py_div f (lr_factor (s1\<lparr>epoch := epoch s1 + 1, current_sparsity := ns,
                   current_masks := Some ms\<rparr>)) = Inr r"
        and "optimizers u = map (scale_all r) (optimizers (s1\<lparr>epoch := epoch s1 + 1,
                   current_sparsity := ns, current_masks := Some ms\<rparr>))"
        and "lr_factor u = f"
      then show ?thesis
        using 3(4,5) ns cfg1 e1 by (auto simp: scaling_fn_def py_div_def split: if_splits)
    qed (use cfg1 in simp_all)
  qed
  have cfg2: "schedule s2 = [(0, 0), (2, 50), (4, 0)]" "epoch s2 = 2" "schedulers s2 = []"
    "optim_lrs s2 = Some [1]"
    using f2 cfg1 by simp_all
  have cfg3: "schedule s3 = [(0, 0), (2, 50), (4, 0)]" "epoch s3 = 3" "schedulers s3 = []"
    "optim_lrs s3 = Some [1]"
    using f3 cfg2 by simp_all
  have e3: "optimizers s3 = optimizers s2"
    using s3 cfg2 by (auto elim!: step_optimizers)
  from s4 have e4: "optimizers s4 = reset_loop (optimizers s3) [1]"
  proof (cases rule: step_optimizers)
    case 1
    then show ?thesis using cfg3 by simp
  next
    case (2 ns u)
    from reset_lrs_no_schedulers(2) [OF 2(3)] 2(4) cfg3 show ?thesis by simp
  next
    case (3 ns ms u)
    then show ?thesis using cfg3 by simp
  qed
  have doubled: "scale_all 2 opt = opt\<lparr>param_groups := map (\<lambda>pg. pg\<lparr>lr := 2\<rparr>) (param_groups opt)\<rparr>"
    using one by (simp add: scale_all_def)
  have "optimizers s2 = [opt\<lparr>param_groups := map (\<lambda>pg. pg\<lparr>lr := 2\<rparr>) (param_groups opt)\<rparr>]"
    using e2 doubled by simp
  moreover from this have
    "optimizers s4 = [opt\<lparr>param_groups := map (\<lambda>pg. pg\<lparr>lr := 1\<rparr>) (param_groups opt)\<rparr>]"
    using e3 e4 by (simp add: comp_def)
  moreover have "epoch s4 = 4"
    using f4 cfg3 by simp
  ultimately show ?thesis
    using cfg2 by simp
qed

theorem C2_scenario_witness:
  "\<exists>s0 d m s2 s4.
     train ex_torch ex_disk init_sniper [(0, 0), (2, 50), (4, 0)] ex_model ex_model []
       [] [ex_optimizer] [] True True False 2 100 [''embed'', ''norm''] True 0 [1] False
       = Inr (s0, d, m) \<and>
     map lr (param_groups ex_optimizer) = [1] \<and>
     steps ex_torch d 2 s0 = Inr s2 \<and> steps ex_torch d 2 s2 = Inr s4 \<and>
     epoch s2 = 2 \<and>
     optimizers s2 = [\<lparr> param_groups = [\<lparr> pg_name = Some ''fc.weight'', lr = 2 \<rparr>] \<rparr>] \<and>
     epoch s4 = 4 \<and>
     optimizers s4 = [\<lparr> param_groups = [\<lparr> pg_name = Some ''fc.weight'', lr = 1 \<rparr>] \<rparr>]"
proof -
  define r where "r = train ex_torch ex_disk init_sniper [(0, 0), (2, 50), (4, 0)] ex_model
       ex_model [] [] [ex_optimizer] [] True True False 2 100 [''embed'', ''norm''] True 0 [1] False"
  define s0 where "s0 = fst (projr r)"
  define d where "d = fst (snd (projr r))"
  define m where "m = snd (snd (projr r))"
  define s2 where "s2 = projr (steps ex_torch d 2 s0)"
  define s4 where "s4 = projr (steps ex_torch d 2 s2)"
  have "\<not> isl r"
    unfolding r_def by (simp add: train_defs ex_defs Let_def)
  then have tr: "r = Inr (s0, d, m)"
    unfolding s0_def d_def m_def by (cases r) simp_all
  have "\<not> isl (steps ex_torch d 2 s0)"
    unfolding s0_def d_def r_def
    by (simp add: train_defs step_defs ex_defs Let_def numeral_2_eq_2)
  then have to2: "steps ex_torch d 2 s0 = Inr s2"
    unfolding s2_def by (rule Inr_projr)
  have "\<not> isl (steps ex_torch d 2 s2)"
    unfolding s2_def s0_def d_def r_def
    by (simp add: train_defs step_defs ex_defs Let_def numeral_2_eq_2)
  then have to4: "steps ex_torch d 2 s2 = Inr s4"
    unfolding s4_def by (rule Inr_projr)
  have one: "\<forall>pg \<in> set (param_groups ex_optimizer). lr pg = 1"
    by (simp add: ex_optimizer_def)
  from C2_scenario_lr_2_then_1 [OF tr [unfolded r_def] one to2 to4] tr [unfolded r_def] to2 to4
  show ?thesis
    by (auto simp: ex_optimizer_def)
qed


section \<open>Properties of \<^verbatim>\<open>compute_gradients\<close>\<close>

lemma map_err_tensor_add:
  assumes "map_err (\<lambda>(total_grad, grad). tensor_add total_grad grad) (zip totals grads) = Inr res"
  shows "length res = min (length totals) (length grads) \<and>
         (\<forall>j < length res. length (res ! j) = length (totals ! j) \<and>
              length (grads ! j) = length (totals ! j) \<and>
              (\<forall>k < length (res ! j). res ! j ! k = totals ! j ! k + grads ! j ! k))"
  using assms
proof (induction totals arbitrary: grads res)
  case Nil
  then show ?case by simp
next
  case (Cons t totals)
  show ?case
  proof (cases grads)
    case Nil
    with Cons.prems show ?thesis by simp
  next
    case (Cons g gs)
    with Cons.prems obtain r rs where res: "res = r # rs" and r: "tensor_add t g = Inr r"
      and rs: "map_err (\<lambda>(total_grad, grad). tensor_add total_grad grad) (zip totals gs) = Inr rs"
      by (auto split: sum.splits)
    from r have r': "length t = length g" "r = map2 (+) t g"
      by (auto simp: tensor_add_def split: if_splits)
    from Cons.IH [OF rs] have IH: "length rs = min (length totals) (length gs)"
      "\<forall>j < length rs. length (rs ! j) = length (totals ! j) \<and>
              length (gs ! j) = length (totals ! j) \<and>
              (\<forall>k < length (rs ! j). rs ! j ! k = totals ! j ! k + gs ! j ! k)"
      by simp_all
    show ?thesis
    proof (intro conjI allI impI)
      show "length res = min (length (t # totals)) (length grads)"
        using IH(1) res Cons by simp
    next
      fix j assume "j < length res"
      then show "length (res ! j) = length ((t # totals) ! j)"
        using IH(2) res r' by (cases j) auto
    next
      fix j assume "j < length res"
      then show "length (grads ! j) = length ((t # totals) ! j)"
        using IH(2) res r' Cons by (cases j) auto
    next
      fix j k assume "j < length res" "k < length (res ! j)"
      then show "res ! j ! k = (t # totals) ! j ! k + grads ! j ! k"
        using IH(2) res r' Cons by (cases j) auto
    qed
  qed
qed

lemma grads_loop_sum:
  assumes "load_model T built iv = Inr model"
    and "grads_loop T self built iv params model totals batches = Inr res"
  shows "\<exists>gradss. map (loss_grad T model params) batches = map Inr gradss \<and>
           length res \<le> length totals \<and>
           (\<forall>grads \<in> set gradss. length res \<le> length grads) \<and>
           ((\<forall>grads \<in> set gradss. length totals \<le> length grads) \<longrightarrow>
              length res = length totals) \<and>
           (\<forall>j < length res. length (res ! j) = length (totals ! j) \<and>
              (\<forall>k < length (res ! j).
                 res ! j ! k = totals ! j ! k + (\<Sum>grads \<leftarrow> gradss. grads ! j ! k)))"
  using assms(2)
proof (induction batches arbitrary: totals)
  case Nil
  then show ?case by simp
next
  case (Cons batch rest)
  from Cons.prems assms(1) obtain grads totals' where
    g: "loss_grad T model params batch = Inr grads"
    and t: "map_err (\<lambda>(total_grad, grad). tensor_add total_grad grad) (zip totals grads) = Inr totals'"
    and r: "grads_loop T self built iv params model totals' rest = Inr res"
    by (auto split: sum.splits)
  from map_err_tensor_add [OF t] have t':
    "length totals' = min (length totals) (length grads)"
    "\<And>j. j < length totals' \<Longrightarrow> length (totals' ! j) = length (totals ! j)"
    "\<And>j k. j < length totals' \<Longrightarrow> k < length (totals' ! j) \<Longrightarrow>
        totals' ! j ! k = totals ! j ! k + grads ! j ! k"
    by simp_all
  from Cons.IH [OF r] obtain gradss where IH:
    "map (loss_grad T model params) rest = map Inr gradss \<and>
     length res \<le> length totals' \<and>
     (\<forall>grads \<in> set gradss. length res \<le> length grads) \<and>
     ((\<forall>grads \<in> set gradss. length totals' \<le> length grads) \<longrightarrow>
        length res = length totals') \<and>
     (\<forall>j < length res. length (res ! j) = length (totals' ! j) \<and>
        (\<forall>k < length (res ! j).
           res ! j ! k = totals' ! j ! k + (\<Sum>grads \<leftarrow> gradss. grads ! j ! k)))"
    by blast
  from IH have gs: "map (loss_grad T model params) rest = map Inr gradss"
    and len: "length res \<le> length totals'"
    and lens: "\<forall>grads \<in> set gradss. length res \<le> length grads"
    and full: "(\<forall>grads \<in> set gradss. length totals' \<le> length grads) \<longrightarrow>
                 length res = length totals'"
    by blast+
  from IH have sums: "\<And>j. j < length res \<Longrightarrow> length (res ! j) = length (totals' ! j)"
       "\<And>j k. j < length res \<Longrightarrow> k < length (res ! j) \<Longrightarrow>
          res ! j ! k = totals' ! j ! k + (\<Sum>grads \<leftarrow> gradss. grads ! j ! k)"
    by blast+
  show ?case
  proof (intro exI [of _ "grads # gradss"] conjI allI impI ballI)
    show "map (loss_grad T model params) (batch # rest) = map Inr (grads # gradss)"
      using g gs by simp
    show "length res \<le> length totals"
      using len t'(1) by simp
  next
    fix x assume "x \<in> set (grads # gradss)"
    then show "length res \<le> length x"
      using lens len t'(1) by auto
  next
    assume "\<forall>x \<in> set (grads # gradss). length totals \<le> length x"
    then show "length res = length totals"
      using full t'(1) by simp
  next
    fix j assume j: "j < length res"
    then show "length (res ! j) = length (totals ! j)"
      using sums(1) t'(2) len by simp
  next
    fix j k assume j: "j < length res" and k: "k < length (res ! j)"
    then have "res ! j ! k = totals' ! j ! k + (\<Sum>grads \<leftarrow> gradss. grads ! j ! k)"
      by (rule sums(2))
    moreover have "totals' ! j ! k = totals ! j ! k + grads ! j ! k"
      using j k len sums(1) t'(3) by simp
    ultimately show "res ! j ! k = totals ! j ! k + (\<Sum>grads \<leftarrow> grads # gradss. grads ! j ! k)"
      by simp
  qed
qed

lemma mask_params_Nil: "mask_params base [] = Inr []"
  by (simp add: mask_params_def)

lemma mask_params_Cons:
  assumes "mask_params base (full_name # rest) = Inr ones"
  shows "\<exists>m n p ones'. rsplit_dot full_name = Some (m, n) \<and> param_data base m n = Inr p \<and>
           mask_params base rest = Inr ones' \<and> ones = replicate (length p) 1 # ones'"
proof -
  from assms obtain m n md p ones' where
    h: "rsplit_dot full_name = Some (m, n)" "get_module_by_name base m = Inr md"
       "getattr md n = Inr (ATensor p)" "mask_params base rest = Inr ones'"
       "ones = replicate (length p) 1 # ones'"
    by (auto simp: mask_params_def split: option.splits sum.splits attr.splits)
  from h(2,3) have "param_data base m n = Inr p"
    by (simp add: param_data_def)
  with h(1,4,5) show ?thesis
    by blast
qed

lemma mask_params_nth:
  assumes "mask_params base params = Inr ones"
  shows "length ones = length params \<and>
         (\<forall>j < length params. \<exists>m n p. rsplit_dot (params ! j) = Some (m, n) \<and>
            param_data base m n = Inr p \<and> ones ! j = replicate (length p) 1)"
  using assms
proof (induction params arbitrary: ones)
  case Nil
  then show ?case by (simp add: mask_params_Nil)
next
  case (Cons full_name rest)
  from mask_params_Cons [OF Cons.prems] obtain m n p ones' where
    h: "rsplit_dot full_name = Some (m, n)" "param_data base m n = Inr p"
       "mask_params base rest = Inr ones'" "ones = replicate (length p) 1 # ones'"
    by blast
  from Cons.IH [OF h(3)] have IH: "length ones' = length rest"
    "\<And>j. j < length rest \<Longrightarrow> \<exists>m n p. rsplit_dot (rest ! j) = Some (m, n) \<and>
            param_data base m n = Inr p \<and> ones' ! j = replicate (length p) 1"
    by simp_all
  show ?case
  proof (intro conjI allI impI)
    show "length ones = length (full_name # rest)"
      using h(4) IH(1) by simp
  next
    fix j assume "j < length (full_name # rest)"
    then show "\<exists>m n p. rsplit_dot ((full_name # rest) ! j) = Some (m, n) \<and>
            param_data base m n = Inr p \<and> ones ! j = replicate (length p) 1"
      using h IH(2) by (cases j) auto
  qed
qed

lemma prunable_Some:
  "prunable (Some excl) names =
     Inr (filter (\<lambda>full_name. \<not> (\<exists>exclude_param \<in> set excl. contains full_name exclude_param))
            names)"
  by (induction names) (simp_all add: will_prune_def)

text \<open>
  C8 as claimed: each parameter's total is the sum over the batches of the absolute
  per-batch gradients. On an object configured by \<^verbatim>\<open>train\<close>, two batches whose gradients
  are 1 and -1 in every element give the total 0 in the code, and 2 in the accumulation
  that the specification words.
\<close>

theorem C8_sum_of_abs_counterexample:
  "loss_grad ex_torch ex_model [''fc.weight''] 1 = Inr [[1, 1, 1, 1]] \<and>
   loss_grad ex_torch ex_model [''fc.weight''] (- 1) = Inr [[- 1, - 1, - 1, - 1]] \<and>
   compute_gradients ex_torch ex_stored ex_model [1, - 1] [(''fc.weight'', [1, 2, 3, 4])]
     = Inr [(''fc.weight'', [0, 0, 0, 0])] \<and>
   spec_total_grads [[0, 0, 0, 0]] [[[1, 1, 1, 1]], [[- 1, - 1, - 1, - 1]]] = [[2, 2, 2, 2]]"
  by (simp add: grad_defs train_defs ex_defs ex_stored_def spec_total_grads_def
        spec_accumulate_def Let_def)

text \<open>
  C8 (as amended). Whenever \<^verbatim>\<open>compute_gradients\<close> returns, its result lists the
  prunable parameters in order (all of them when every batch yields one gradient per
  parameter, as \<^verbatim>\<open>torch.autograd.grad\<close> does); the tensor of each has as many elements
  as the parameter, and every element is the absolute value of the sum, over the batches,
  of the gradients of that element: the signed gradients are added and the absolute value
  is taken once, at the end.
\<close>

theorem C8_abs_of_summed_grads:
  assumes "compute_gradients T self built batches init_vals = Inr total_grads"
  shows "\<exists>model md params gradss.
     load_model T built init_vals = Inr model \<and>
     get_module_to_snip model (snip_module_name self) = Inr (AModule md) \<and>
     prunable (exclude_params self) (map fst (named_parameters T md)) = Inr params \<and>
     map (loss_grad T model params) batches = map Inr gradss \<and>
     map fst total_grads = take (length total_grads) params \<and>
     ((\<forall>grads \<in> set gradss. length grads = length params) \<longrightarrow>
        map fst total_grads = params) \<and>
     (\<forall>j < length total_grads. \<exists>m n p.
        rsplit_dot (params ! j) = Some (m, n) \<and> param_data (AModule md) m n = Inr p \<and>
        length (snd (total_grads ! j)) = length p \<and>
        (\<forall>k < length p. snd (total_grads ! j) ! k = \<bar>\<Sum>grads \<leftarrow> gradss. grads ! j ! k\<bar>))"
proof -
  from assms obtain model md params ones res where
    model: "load_model T built init_vals = Inr model"
    and md: "get_module_to_snip model (snip_module_name self) = Inr (AModule md)"
    and params: "prunable (exclude_params self) (map fst (named_parameters T md)) = Inr params"
    and ones: "mask_params (AModule md) params = Inr ones"
    and loop: "grads_loop T self built init_vals params model
                 (map (\<lambda>m. replicate (length m) 0) ones) batches = Inr res"
    and tg: "total_grads = zip params (map (map abs) res)"
    by (auto simp: compute_gradients_def split: sum.splits attr.splits if_splits)
  define zeros where "zeros = map (\<lambda>m. replicate (length m) (0::real)) ones"
  from grads_loop_sum [OF model loop] obtain gradss where L:
    "map (loss_grad T model params) batches = map Inr gradss \<and>
     length res \<le> length zeros \<and>
     (\<forall>grads \<in> set gradss. length res \<le> length grads) \<and>
     ((\<forall>grads \<in> set gradss. length zeros \<le> length grads) \<longrightarrow> length res = length zeros) \<and>
     (\<forall>j < length res. length (res ! j) = length (zeros ! j) \<and>
        (\<forall>k < length (res ! j).
           res ! j ! k = zeros ! j ! k + (\<Sum>grads \<leftarrow> gradss. grads ! j ! k)))"
    unfolding zeros_def by blast
  from L have gs: "map (loss_grad T model params) batches = map Inr gradss"
    and len: "length res \<le> length zeros"
    and full: "(\<forall>grads \<in> set gradss. length zeros \<le> length grads) \<longrightarrow>
                 length res = length zeros"
    by blast+
  from L have sums: "\<And>j. j < length res \<Longrightarrow> length (res ! j) = length (zeros ! j)"
       "\<And>j k. j < length res \<Longrightarrow> k < length (res ! j) \<Longrightarrow>
          res ! j ! k = zeros ! j ! k + (\<Sum>grads \<leftarrow> gradss. grads ! j ! k)"
    by blast+
  from mask_params_nth [OF ones] have olen: "length ones = length params"
    and shaped: "\<And>j. j < length params \<Longrightarrow> \<exists>m n p. rsplit_dot (params ! j) = Some (m, n) \<and>
            param_data (AModule md) m n = Inr p \<and> ones ! j = replicate (length p) 1"
    by simp_all
  have zlen: "length zeros = length params"
    using olen by (simp add: zeros_def)
  have names: "map fst total_grads = take (length total_grads) params"
    unfolding tg by (simp add: take_map [symmetric] map_fst_zip_take min.commute)
  have all_names: "map fst total_grads = params"
    if "\<forall>grads \<in> set gradss. length grads = length params"
  proof -
    from full that zlen have "length res = length params"
      by simp
    then show ?thesis
      unfolding tg by simp
  qed
  have vals: "\<exists>m n p. rsplit_dot (params ! j) = Some (m, n) \<and>
        param_data (AModule md) m n = Inr p \<and> length (snd (total_grads ! j)) = length p \<and>
        (\<forall>k < length p. snd (total_grads ! j) ! k = \<bar>\<Sum>grads \<leftarrow> gradss. grads ! j ! k\<bar>)"
    if j: "j < length total_grads" for j
  proof -
    from j have jr: "j < length res" and jp: "j < length params"
      unfolding tg by simp_all
    from shaped [OF jp] obtain m n p where
      p: "rsplit_dot (params ! j) = Some (m, n)" "param_data (AModule md) m n = Inr p"
         "ones ! j = replicate (length p) 1"
      by blast
    from j have eq: "snd (total_grads ! j) = map abs (res ! j)"
      unfolding tg by simp
    have zj: "zeros ! j = replicate (length p) 0"
      using jp olen p(3) by (simp add: zeros_def)
    have lr: "length (res ! j) = length p"
      using sums(1) [OF jr] zj by simp
    have "snd (total_grads ! j) ! k = \<bar>\<Sum>grads \<leftarrow> gradss. grads ! j ! k\<bar>" if k: "k < length p" for k
    proof -
      from k lr have kr: "k < length (res ! j)"
        by simp
      have "res ! j ! k = zeros ! j ! k + (\<Sum>grads \<leftarrow> gradss. grads ! j ! k)"
        using jr kr by (rule sums(2))
      then show ?thesis
        using eq kr zj k by simp
    qed
    with p(1,2) eq lr show ?thesis
      by auto
  qed
  show ?thesis
    using model md params gs names all_names vals by blast
qed

theorem C8_abs_of_summed_grads_witness:
  "compute_gradients ex_torch ex_stored ex_model [1, - 3] [(''fc.weight'', [1, 2, 3, 4])]
     = Inr [(''fc.weight'', [2, 2, 2, 2])] \<and>
   (\<exists>model md gradss.
      load_model ex_torch ex_model [(''fc.weight'', [1, 2, 3, 4])] = Inr model \<and>
      get_module_to_snip model (snip_module_name ex_stored) = Inr (AModule md) \<and>
      prunable (exclude_params ex_stored) (map fst (named_parameters ex_torch md))
        = Inr [''fc.weight''] \<and>
      gradss = [[[1, 1, 1, 1]], [[- 3, - 3, - 3, - 3]]] \<and>
      map (loss_grad ex_torch model [''fc.weight'']) [1, - 3] = map Inr gradss \<and>
      param_data (AModule md) ''fc'' ''weight'' = Inr [1, 2, 3, 4] \<and>
      map (\<lambda>k. \<bar>\<Sum>grads \<leftarrow> gradss. grads ! 0 ! k\<bar>) [0, 1, 2, 3] = [2, 2, 2, 2])"
proof -
  have run: "compute_gradients ex_torch ex_stored ex_model [1, - 3] [(''fc.weight'', [1, 2, 3, 4])]
     = Inr [(''fc.weight'', [2, 2, 2, 2])]"
    by (simp add: grad_defs train_defs ex_defs ex_stored_def Let_def)
  from C8_abs_of_summed_grads [OF run] obtain model md params gradss where
    h: "load_model ex_torch ex_model [(''fc.weight'', [1, 2, 3, 4])] = Inr model"
       "get_module_to_snip model (snip_module_name ex_stored) = Inr (AModule md)"
       "prunable (exclude_params ex_stored) (map fst (named_parameters ex_torch md)) = Inr params"
       "map (loss_grad ex_torch model params) [1, - 3] = map Inr gradss"
       "\<forall>j < length [(''fc.weight'', [2, 2, 2, 2 :: real])]. \<exists>m n p.
          rsplit_dot (params ! j) = Some (m, n) \<and> param_data (AModule md) m n = Inr p \<and>
          length (snd ([(''fc.weight'', [2, 2, 2, 2 :: real])] ! j)) = length p \<and>
          (\<forall>k < length p. snd ([(''fc.weight'', [2, 2, 2, 2 :: real])] ! j) ! k
                            = \<bar>\<Sum>grads \<leftarrow> gradss. grads ! j ! k\<bar>)"
    by blast
  have model: "model = ex_model"
    using h(1) by (simp add: load_model_def ex_torch_def)
  have md: "AModule md = ex_model"
    using h(2) model by (simp add: train_defs ex_defs ex_stored_def)
  have params: "params = [''fc.weight'']"
    using h(3) by (simp add: grad_defs train_defs ex_defs ex_stored_def)
  have gradss: "gradss = [[[1, 1, 1, 1]], [[- 3, - 3, - 3, - 3]]]"
    using h(4) by (auto simp: params ex_torch_def Cons_eq_map_conv)
  have p: "param_data (AModule md) ''fc'' ''weight'' = Inr [1, 2, 3, 4]"
    unfolding md by (simp add: param_data_def get_module_by_name_def getattr_def ex_model_def)
  from h(5) have "\<exists>m n p.
          rsplit_dot (params ! 0) = Some (m, n) \<and> param_data (AModule md) m n = Inr p \<and>
          length (snd ([(''fc.weight'', [2, 2, 2, 2 :: real])] ! 0)) = length p \<and>
          (\<forall>k < length p. snd ([(''fc.weight'', [2, 2, 2, 2 :: real])] ! 0) ! k
                            = \<bar>\<Sum>grads \<leftarrow> gradss. grads ! 0 ! k\<bar>)"
    by simp
  then have each: "snd ([(''fc.weight'', [2, 2, 2, 2 :: real])] ! 0) ! k
                 = \<bar>\<Sum>grads \<leftarrow> gradss. grads ! 0 ! k\<bar>" if "k < 4" for k
    using p that by (auto simp: params rsplit_dot_def)
  have elems: "map (\<lambda>k. \<bar>\<Sum>grads \<leftarrow> gradss. grads ! 0 ! k\<bar>) [0, 1, 2, 3] = [2, 2, 2, 2]"
    using each [of 0] each [of 1] each [of 2] each [of 3] by simp
  note found = h(1,2) h(3) [unfolded params] gradss h(4) [unfolded params] p elems
  have "\<exists>model md gradss.
      load_model ex_torch ex_model [(''fc.weight'', [1, 2, 3, 4])] = Inr model \<and>
      get_module_to_snip model (snip_module_name ex_stored) = Inr (AModule md) \<and>
      prunable (exclude_params ex_stored) (map fst (named_parameters ex_torch md))
        = Inr [''fc.weight''] \<and>
      gradss = [[[1, 1, 1, 1]], [[- 3, - 3, - 3, - 3]]] \<and>
      map (loss_grad ex_torch model [''fc.weight'']) [1, - 3] = map Inr gradss \<and>
      param_data (AModule md) ''fc'' ''weight'' = Inr [1, 2, 3, 4] \<and>
      map (\<lambda>k. \<bar>\<Sum>grads \<leftarrow> gradss. grads ! 0 ! k\<bar>) [0, 1, 2, 3] = [2, 2, 2, 2]"
    by (rule exI [of _ model], rule exI [of _ md], rule exI [of _ gradss])
       (intro conjI found)
  with run show ?thesis
    by (rule conjI)
qed


section \<open>Properties of the hook lifecycle and of resuming\<close>

lemma update_hooks_fresh:
  assumes "update_hooks self rs = Inr self'"
    and "forward_hook self = None" and "forward_pre_hooks self = []" and "next_handle self = 0"
  shows "forward_pre_hooks self' = (if rs \<noteq> 0 then [(0, current_masks self)] else [])"
  using assms
  by (auto simp: update_hooks_def register_forward_pre_hook_def split: attr.splits if_splits)

lemma train_reaches_start:
  assumes "map_of schedule' 0 = Some start"
    and "train T d self0 schedule' model built name batches optimizers' schedulers'
           fm sl slp mls cap excl riv resume_epoch' olrs trk = Inr (self, d', m)"
  obtains init_vals mts where
    "train_start d'
       (train_tracking
          ((train_store_args self0 schedule' start name optimizers' schedulers' fm sl slp mls
              cap excl riv resume_epoch' olrs trk)
           \<lparr> module_to_snip := mts, init_values := Some init_vals \<rparr>) olrs) start = Inr self"
  using assms
  by (auto simp: train_def Let_def split: sum.splits prod.splits)

text \<open>
  C3. The claim: at most one forward pre-hook is registered, a registered hook applies the
  current MaskSet, and none is registered at sparsity 0. The code, when \<^verbatim>\<open>train\<close> is
  called with the schedule \<open>{0: 50}\<close> and \<^verbatim>\<open>resume_epoch = 1\<close>: \<^verbatim>\<open>resume_from\<close>
  registers a hook built from \<^verbatim>\<open>self.current_masks\<close>, which is still \<^verbatim>\<open>None\<close>
  because this path never calls \<^verbatim>\<open>load_masks\<close>. The hook applies no MaskSet (calling
  it raises), although the current sparsity is 50 and its masks are on file.
\<close>

theorem C3_resume_hook_has_no_masks:
  "\<exists>s d m.
     train ex_torch ex_disk init_sniper [(0, 50)] ex_model ex_model [] [] [ex_optimizer] []
       True True False 2 100 [''embed'', ''norm''] True 1 [1] False = Inr (s, d, m) \<and>
     current_sparsity s = 50 \<and> current_masks s = None \<and>
     forward_hook s = Some 0 \<and> forward_pre_hooks s = [(0, None)] \<and>
     forward_hook_call None (module_to_snip s) = Inl AttributeError \<and>
     load_masks d s 50 = Inr [(''fc.weight'', [True, False, True, False])]"
  by (simp add: train_defs step_defs sched_defs ex_defs Let_def)

text \<open>
  C7. The claim: \<^verbatim>\<open>train\<close> with a resume epoch and a nonzero starting sparsity sets
  the epoch counter, rebinds the hook to the MaskSet of the sparsity scheduled for that
  epoch, and updates no learning rate. The code sets the counter and leaves optimizers,
  schedulers and the factor alone, but loads no masks: \<^verbatim>\<open>current_masks\<close> stays
  \<^verbatim>\<open>None\<close>, and the hook registered for a nonzero resume sparsity closes over \<^verbatim>\<open>None\<close>.
\<close>

theorem C7_resume_loads_no_masks:
  assumes "map_of schedule' 0 = Some start" and "start \<noteq> 0" and "resume_epoch' \<noteq> 0"
    and "train T d init_sniper schedule' model built name batches optimizers' schedulers'
           fm sl slp mls cap excl riv resume_epoch' olrs trk = Inr (self, d', m)"
  shows "epoch self = resume_epoch' \<and> optimizers self = optimizers' \<and>
         schedulers self = schedulers' \<and> lr_factor self = 1 \<and> current_masks self = None \<and>
         (\<exists>rs. get_sparsity schedule' resume_epoch' = Inr rs \<and>
               forward_pre_hooks self = (if rs \<noteq> 0 then [(0, None)] else []))"
proof -
  from assms(1,4) obtain init_vals mts where
    ts: "train_start d'
       (train_tracking
          ((train_store_args init_sniper schedule' start name optimizers' schedulers' fm sl slp
              mls cap excl riv resume_epoch' olrs trk)
           \<lparr> module_to_snip := mts, init_values := Some init_vals \<rparr>) olrs) start = Inr self"
    by (rule train_reaches_start)
  define stored where "stored = train_tracking
          ((train_store_args init_sniper schedule' start name optimizers' schedulers' fm sl slp
              mls cap excl riv resume_epoch' olrs trk)
           \<lparr> module_to_snip := mts, init_values := Some init_vals \<rparr>) olrs"
  have stored: "resume_epoch stored = resume_epoch'" "optimizers stored = optimizers'"
    "schedulers stored = schedulers'" "lr_factor stored = 1" "current_masks stored = None"
    "forward_hook stored = None" "forward_pre_hooks stored = []" "next_handle stored = 0"
    "schedule stored = schedule'"
    unfolding stored_def
    by (simp_all add: train_tracking_def train_store_args_def init_sniper_def)
  define pre where "pre = stored\<lparr> epoch := resume_epoch', optimizers := optimizers',
                                   schedulers := schedulers' \<rparr>"
  from ts assms(2,3) stored obtain rs where
    rs: "get_sparsity schedule' resume_epoch' = Inr rs"
    and upd: "update_hooks pre rs = Inr self"
    unfolding stored_def [symmetric] pre_def
    by (auto simp: train_start_def resume_from_def Let_def split: sum.splits if_splits)
  have pre: "epoch pre = resume_epoch'" "optimizers pre = optimizers'"
    "schedulers pre = schedulers'" "lr_factor pre = 1" "current_masks pre = None"
    "forward_hook pre = None" "forward_pre_hooks pre = []" "next_handle pre = 0"
    unfolding pre_def using stored by simp_all
  from update_hooks_frame [OF upd] update_hooks_fresh [OF upd pre(6,7,8)] pre rs
  show ?thesis
    by simp
qed

theorem C7_resume_witness:
  "\<exists>self d' m.
     map_of [(0, 50), (5, 80)] (0::int) = Some (50::real) \<and> (50::real) \<noteq> 0 \<and> (7::int) \<noteq> 0 \<and>
     train ex_torch ex_disk init_sniper [(0, 50), (5, 80)] ex_model ex_model [] []
       [ex_optimizer] [] True True False 2 100 [''embed'', ''norm''] True 7 [1] False
       = Inr (self, d', m) \<and>
     epoch self = 7 \<and> optimizers self = [ex_optimizer] \<and> schedulers self = [] \<and>
     lr_factor self = 1 \<and> current_masks self = None \<and>
     get_sparsity [(0, 50), (5, 80)] 7 = Inr 80 \<and> forward_pre_hooks self = [(0, None)]"
proof -
  define r where "r = train ex_torch ex_disk init_sniper [(0, 50), (5, 80)] ex_model ex_model
       [] [] [ex_optimizer] [] True True False 2 100 [''embed'', ''norm''] True 7 [1] False"
  have "\<not> isl r"
    unfolding r_def by (simp add: train_defs step_defs sched_defs ex_defs Let_def)
  then obtain self d' m where tr: "r = Inr (self, d', m)"
    by (cases r) auto
  have z: "map_of [(0, 50), (5, 80)] (0::int) = Some (50::real)" and nz: "(50::real) \<noteq> 0"
    and re: "(7::int) \<noteq> 0"
    by simp_all
  have gs: "get_sparsity [(0, 50), (5, 80)] 7 = Inr 80"
    by (simp add: get_sparsity_def)
  from C7_resume_loads_no_masks [OF z nz re tr [unfolded r_def]] gs tr [unfolded r_def] show ?thesis
    by auto
qed


section \<open>Closed-form schedulers\<close>

lemma uniform_sched_loop_patched:
  assumes "i < length us" and "i < length opts" and "i < length schs" and "us ! i"
  shows "sched_step (snd (uniform_sched_loop r us opts schs) ! i) = PartialFactor r"
  using assms
proof (induction r us opts schs arbitrary: i rule: uniform_sched_loop.induct)
  case (1 lr_ratio update us opt opts sch schs)
  then show ?case
    by (cases i) (auto split: prod.splits)
qed simp_all

lemma update_lrs_uniform_schedulers:
  assumes "update_lrs self ns = Inr u"
    and "scale_lr self" and "\<not> scale_lr_by_param self" and "schedulers self \<noteq> []"
  shows "lr_factor self \<noteq> 0"
    and "schedulers u = snd (uniform_sched_loop (lr_factor u / lr_factor self)
                               (update_step_fns self) (optimizers self) (schedulers self))"
  using assms
  by (auto simp: update_lrs_def py_div_def split: sum.splits if_splits prod.splits)

text \<open>
  C6. The claim: the replaced step of a closed-form scheduler multiplies the closed-form
  values by the current factor. The code, under uniform scaling: a step that reaches a
  nonzero sparsity binds the step of every closed-form scheduler to
  \<^verbatim>\<open>lr_factor = new_lr_factor / self.lr_factor\<close>, the ratio of the new factor to the
  previous one, which is the current factor only while the previous one is 1. With the
  schedule \<open>{0: 0, 1: 50, 2: 75}\<close> and \<^verbatim>\<open>max_lr_scaling = 100\<close>, after the step to
  epoch 2 the current factor is 4 and the step is bound to \<open>4 / 2\<close>, so a call writes
  \<open>2 * 1\<close> into the group.
\<close>

theorem C6_patched_step_uses_ratio:
  assumes run: "step T d self = Inr self'"
    and sched: "map_of (schedule self) (epoch self + 1) = Some ns" and nz: "ns \<noteq> 0"
    and mode: "scale_lr self" "\<not> scale_lr_by_param self" "schedulers self \<noteq> []"
    and i: "i < length (update_step_fns self)" "i < length (optimizers self)"
           "i < length (schedulers self)"
    and closed_form: "update_step_fns self ! i"
  shows "sched_step (schedulers self' ! i) = PartialFactor (lr_factor self' / lr_factor self)"
proof -
  from sched run obtain u v where
    u: "if ns \<noteq> 0
        then \<exists>ms. load_masks d (self\<lparr>epoch := epoch self + 1, current_sparsity := ns\<rparr>) ns = Inr ms \<and>
            update_lrs (self\<lparr>epoch := epoch self + 1, current_sparsity := ns,
                          current_masks := Some ms\<rparr>) ns = Inr u
        else reset_lrs (self\<lparr>epoch := epoch self + 1, current_sparsity := ns,
                       current_masks := None\<rparr>) = Inr u"
    and v: "if forward_mask u then update_hooks u ns = Inr v else v = u"
    and s': "if restore_init_values v then restore_init d v = Inr self'
             else log_nonzeros_count T v = Inr self'"
    by (rule step_scheduled)
  from u nz obtain ms where
    upd: "update_lrs (self\<lparr>epoch := epoch self + 1, current_sparsity := ns,
                          current_masks := Some ms\<rparr>) ns = Inr u"
    by auto
  have "schedulers u = snd (uniform_sched_loop (lr_factor u / lr_factor self)
                               (update_step_fns self) (optimizers self) (schedulers self))"
    using update_lrs_uniform_schedulers(2) [OF upd] mode by simp
  with i closed_form have "sched_step (schedulers u ! i) = PartialFactor (lr_factor u / lr_factor self)"
    by (simp add: uniform_sched_loop_patched)
  moreover have "schedulers v = schedulers u \<and> lr_factor v = lr_factor u"
    using v by (auto split: if_splits dest: update_hooks_frame)
  moreover have "schedulers self' = schedulers v \<and> lr_factor self' = lr_factor v"
    using s' by (auto split: if_splits dest: restore_init_frame log_nonzeros_count_frame)
  ultimately show ?thesis
    by simp
qed

theorem C6_patched_step_witness:
  "\<exists>s0 d m s1 s2 opt.
     train ex_torch ex_disk init_sniper [(0, 0), (1, 50), (2, 75)] ex_model ex_model [] []
       [ex_optimizer] [ex_scheduler] True True False 100 100 [''embed'', ''norm''] True 0 [1]
       False = Inr (s0, d, m) \<and>
     step ex_torch d s0 = Inr s1 \<and> step ex_torch d s1 = Inr s2 \<and>
     map_of (schedule s1) (epoch s1 + 1) = Some 75 \<and>
     scale_lr s1 \<and> \<not> scale_lr_by_param s1 \<and> update_step_fns s1 = [True] \<and>
     length (schedulers s1) = 1 \<and> optimizers s2 = [opt] \<and>
     lr_factor s1 = 2 \<and> lr_factor s2 = 4 \<and>
     sched_step (schedulers s2 ! 0) = PartialFactor (4 / 2) \<and>
     get_lr (schedulers s2 ! 0) (last_epoch (schedulers s2 ! 0) + 1)
       (map lr (param_groups opt)) = [1] \<and>
     map lr (param_groups (snd (call_step (schedulers s2 ! 0) opt))) = [2]"
proof -
  define r where "r = train ex_torch ex_disk init_sniper [(0, 0), (1, 50), (2, 75)] ex_model
       ex_model [] [] [ex_optimizer] [ex_scheduler] True True False 100 100 [''embed'', ''norm'']
       True 0 [1] False"
  define s0 where "s0 = fst (projr r)"
  define d where "d = fst (snd (projr r))"
  define m where "m = snd (snd (projr r))"
  define s1 where "s1 = projr (step ex_torch d s0)"
  define s2 where "s2 = projr (step ex_torch d s1)"
  note defs = train_defs step_defs sched_defs ex_defs Let_def
  have "\<not> isl r"
    unfolding r_def by (simp add: defs)
  then have tr: "r = Inr (s0, d, m)"
    unfolding s0_def d_def m_def by (cases r) simp_all
  have "\<not> isl (step ex_torch d s0)"
    unfolding s0_def d_def r_def by (simp add: defs)
  then have st1: "step ex_torch d s0 = Inr s1"
    unfolding s1_def by (rule Inr_projr)
  have "\<not> isl (step ex_torch d s1)"
    unfolding s1_def s0_def d_def r_def by (simp add: defs)
  then have st2: "step ex_torch d s1 = Inr s2"
    unfolding s2_def by (rule Inr_projr)
  have s1: "map_of (schedule s1) (epoch s1 + 1) = Some 75" "scale_lr s1"
    "\<not> scale_lr_by_param s1" "update_step_fns s1 = [True]" "length (schedulers s1) = 1"
    "length (optimizers s1) = 1" "lr_factor s1 = 2"
    unfolding s1_def s0_def d_def r_def by (simp_all add: defs)
  have s2: "optimizers s2 = [ex_optimizer]" "lr_factor s2 = 4"
    "get_lr (schedulers s2 ! 0) (last_epoch (schedulers s2 ! 0) + 1)
       (map lr (param_groups ex_optimizer)) = [1]"
    unfolding s2_def s1_def s0_def d_def r_def by (simp_all add: defs)
  have ne: "schedulers s1 \<noteq> []"
    using s1(5) by auto
  have bound: "sched_step (schedulers s2 ! 0) = PartialFactor (4 / 2)"
    using C6_patched_step_uses_ratio [OF st2 s1(1) _ s1(2,3) ne, of 0] s1 s2 by simp
  have call: "map lr (param_groups (snd (call_step (schedulers s2 ! 0) ex_optimizer))) = [2]"
    using bound s2(3) by (simp add: call_step_def scheduler_step_def ex_optimizer_def)
  show ?thesis
    by (rule exI [of _ s0], rule exI [of _ d], rule exI [of _ m], rule exI [of _ s1],
        rule exI [of _ s2], rule exI [of _ ex_optimizer])
       (use tr [unfolded r_def] st1 st2 s1 s2 bound call in simp)
qed


section \<open>Properties of name resolution and of \<^verbatim>\<open>restore_init\<close>\<close>

lemma param_data_param_at: "param_data base m n = param_at base (split_dot m) n"
  by (simp add: param_data_def param_at_def get_module_by_name_def)

lemma split_dot_not_Nil: "split_dot s \<noteq> []"
  by (induction s) (auto split: list.splits)

lemma split_dot_not_Nil': "[] \<noteq> split_dot s"
  using split_dot_not_Nil [of s] by simp

lemma split_dot_inj: "split_dot s = split_dot t \<Longrightarrow> s = t"
proof (induction s arbitrary: t)
  case Nil
  then show ?case
    by (cases t) (auto simp: split_dot_not_Nil split_dot_not_Nil' split: if_splits list.splits)
next
  case (Cons c s)
  show ?case
  proof (cases t)
    case Nil
    with Cons.prems show ?thesis
      by (auto simp: split_dot_not_Nil split_dot_not_Nil' split: if_splits list.splits)
  next
    case (Cons c' t')
    with Cons.prems Cons.IH [of t'] show ?thesis
      by (auto simp: split_dot_not_Nil split_dot_not_Nil' split: if_splits list.splits)
  qed
qed

lemma rsplit_dot_join: "rsplit_dot s = Some (m, n) \<Longrightarrow> s = m @ ''.'' @ n"
proof -
  assume a: "rsplit_dot s = Some (m, n)"
  then have dot: "CHR ''.'' \<in> set (rev s)"
    and m: "m = rev (tl (dropWhile (\<lambda>c. c \<noteq> CHR ''.'') (rev s)))"
    and n: "n = rev (takeWhile (\<lambda>c. c \<noteq> CHR ''.'') (rev s))"
    by (auto simp: rsplit_dot_def split: if_splits)
  from dot have "dropWhile (\<lambda>c. c \<noteq> CHR ''.'') (rev s) \<noteq> []"
    by (simp add: dropWhile_eq_Nil_conv) 
  moreover have "dropWhile (\<lambda>c. c \<noteq> CHR ''.'') (rev s) \<noteq> [] \<Longrightarrow>
      hd (dropWhile (\<lambda>c. c \<noteq> CHR ''.'') (rev s)) = CHR ''.''"
    using hd_dropWhile [of "\<lambda>c. c \<noteq> CHR ''.''" "rev s"] by simp
  ultimately have "dropWhile (\<lambda>c. c \<noteq> CHR ''.'') (rev s) =
      CHR ''.'' # tl (dropWhile (\<lambda>c. c \<noteq> CHR ''.'') (rev s))"
    by (metis list.collapse)
  then have "rev s = takeWhile (\<lambda>c. c \<noteq> CHR ''.'') (rev s) @
      CHR ''.'' # tl (dropWhile (\<lambda>c. c \<noteq> CHR ''.'') (rev s))"
    by (metis takeWhile_dropWhile_id)
  then have "s = rev (takeWhile (\<lambda>c. c \<noteq> CHR ''.'') (rev s) @
      CHR ''.'' # tl (dropWhile (\<lambda>c. c \<noteq> CHR ''.'') (rev s)))"
    by (metis rev_rev_ident)
  then show ?thesis
    unfolding m n by simp
qed

lemma getattr_error: "getattr obj n = Inl e \<Longrightarrow> e = AttributeError"
  by (auto simp: getattr_def split: attr.splits option.splits if_splits)

lemma reduce_getattr_error: "reduce_getattr ns obj = Inl e \<Longrightarrow> e = AttributeError"
  by (induction ns arbitrary: obj) (auto split: sum.splits dest: getattr_error)

lemma param_at_error: "param_at base ns n = Inl e \<Longrightarrow> e = AttributeError"
  by (auto simp: param_at_def split: sum.splits attr.splits
           dest: getattr_error reduce_getattr_error)

lemma param_at_Nil:
  "param_at (AModule md) [] n = (if n \<noteq> [] then
      (case map_of (tensors md) n of Some d \<Rightarrow> Inr d | None \<Rightarrow> Inl AttributeError)
    else Inl AttributeError)"
  by (auto simp: param_at_def getattr_def split: option.splits)

lemma param_at_Cons:
  "param_at (AModule md) (a # as) n =
     (if a \<noteq> [] \<and> map_of (tensors md) a = None then
        (case map_of (submodules md) a of
           Some c \<Rightarrow> param_at (AModule c) as n
         | None \<Rightarrow> Inl AttributeError)
      else Inl AttributeError)"
proof -
  have t: "param_at (ATensor d) as n = Inl AttributeError" for d
    by (cases as) (auto simp: param_at_def getattr_def)
  show ?thesis
    using t by (auto simp: param_at_def getattr_def split: option.splits sum.splits)
qed

lemma param_at_set_data_same:
  "param_at (AModule md) ns n = Inr d \<Longrightarrow> param_at (AModule (set_data md ns n v)) ns n = Inr v"
proof (induction ns arbitrary: md)
  case Nil
  then show ?case
    by (cases md) (auto simp: param_at_Nil update_conv' split: if_splits option.splits)
next
  case (Cons a as)
  then show ?case
    by (cases md) (auto simp: param_at_Cons update_conv' split: if_splits option.splits)
qed

lemma param_at_set_data_other:
  "param_at (AModule md) ns n = Inr d \<Longrightarrow> (ns', n') \<noteq> (ns, n) \<Longrightarrow>
     param_at (AModule (set_data md ns n v)) ns' n' = param_at (AModule md) ns' n'"
proof (induction ns' arbitrary: md ns)
  case Nil
  then show ?case
    by (cases md; cases ns)
       (auto simp: param_at_Nil param_at_Cons update_conv' split: if_splits option.splits)
next
  case (Cons a' as')
  show ?case
  proof (cases ns)
    case Nil
    with Cons.prems show ?thesis
      by (cases md) (auto simp: param_at_Nil param_at_Cons update_conv' split: if_splits option.splits)
  next
    case (Cons a as)
    obtain ts cs where md: "md = Module ts cs" by (cases md)
    from Cons.prems Cons md obtain c where
      a: "a \<noteq> []" "map_of ts a = None" "map_of cs a = Some c"
      and c: "param_at (AModule c) as n = Inr d"
      by (auto simp: param_at_Cons split: if_splits option.splits)
    show ?thesis
    proof (cases "a' = a")
      case True
      with Cons.prems(2) Cons have "(as', n') \<noteq> (as, n)" by simp
      from Cons.IH [OF c this] True a md Cons show ?thesis
        by (simp add: param_at_Cons update_conv')
    next
      case False
      with a md Cons show ?thesis
        by (simp add: param_at_Cons update_conv')
    qed
  qed
qed

lemma keeps_nonzero_refl: "keeps_nonzero d d"
  by (simp add: keeps_nonzero_def)

lemma keeps_nonzero_trans: "keeps_nonzero a b \<Longrightarrow> keeps_nonzero b c \<Longrightarrow> keeps_nonzero a c"
  by (auto simp: keeps_nonzero_def)

lemma param_at_non_module:
  "param_at ANone ns n = Inl AttributeError" "param_at (ATensor t) ns n = Inl AttributeError"
  by (cases ns; simp add: param_at_def getattr_def)+

lemma param_data_write_same:
  assumes "param_data base m n = Inr d"
  shows "param_data (write_param base m n v) m n = Inr v"
proof (cases base)
  case (AModule md)
  with assms show ?thesis
    by (simp add: param_data_param_at write_param_def param_at_set_data_same)
qed (use assms in \<open>simp_all add: param_data_param_at param_at_non_module\<close>)

lemma param_data_write_other:
  assumes "param_data base m n = Inr d" and "(m', n') \<noteq> (m, n)"
  shows "param_data (write_param base m n v) m' n' = param_data base m' n'"
proof (cases base)
  case (AModule md)
  from assms(2) have "(split_dot m', n') \<noteq> (split_dot m, n)"
    by (auto dest: split_dot_inj)
  with assms(1) AModule show ?thesis
    by (simp add: param_data_param_at write_param_def param_at_set_data_other)
qed (simp_all add: write_param_def)

lemma restore_values_elem:
  assumes "restore_values init old mk = Inr new"
  shows "length new = length old" and "length init = length old"
    and "i < length old \<Longrightarrow>
           new ! i = (if old ! i = 0 \<and> (case mk of None \<Rightarrow> True | Some k \<Rightarrow> k ! i)
                      then init ! i else old ! i)"
  using assms
  by (auto simp: restore_values_def bool_to_def split: option.splits if_splits sum.splits)

lemma restore_values_keeps: "restore_values init old mk = Inr new \<Longrightarrow> keeps_nonzero old new"
  by (auto simp: keeps_nonzero_def restore_values_elem)

lemma restore_param_effect:
  assumes "restore_param base m n init mk = Inr base'"
  obtains old new where "param_data base m n = Inr old"
    and "restore_values init old mk = Inr new" and "base' = write_param base m n new"
  using assms by (auto simp: restore_param_def split: sum.splits)

lemma restore_param_read:
  assumes "restore_param base m n init mk = Inr base'"
  shows "(m', n') \<noteq> (m, n) \<Longrightarrow> param_data base' m' n' = param_data base m' n'"
    and "\<exists>old new. param_data base m n = Inr old \<and> restore_values init old mk = Inr new \<and>
           param_data base' m n = Inr new"
  using assms
  by (auto elim!: restore_param_effect simp: param_data_write_same param_data_write_other)

lemma param_at_write_other:
  assumes "param_data base m n = Inr d" and "(ns', n') \<noteq> (split_dot m, n)"
  shows "param_at (write_param base m n v) ns' n' = param_at base ns' n'"
proof (cases base)
  case (AModule md)
  with assms show ?thesis
    by (simp add: param_data_param_at write_param_def param_at_set_data_other)
qed (simp_all add: write_param_def)

lemma restore_param_keeps:
  assumes "restore_param base m n init mk = Inr base'" and "param_at base ns' n' = Inr old"
  shows "\<exists>new. param_at base' ns' n' = Inr new \<and> keeps_nonzero old new"
proof (cases "(ns', n') = (split_dot m, n)")
  case True
  with restore_param_read(2) [OF assms(1)] assms(2) show ?thesis
    by (auto simp: param_data_param_at dest: restore_values_keeps)
next
  case False
  from assms(1) obtain d new where "param_data base m n = Inr d"
    and "base' = write_param base m n new"
    by (rule restore_param_effect)
  with param_at_write_other [OF this(1) False] assms(2) show ?thesis
    by (auto simp: keeps_nonzero_refl)
qed

lemma restore_masked_keeps:
  assumes "restore_masked snip ivs ms base = Inr base'" and "param_at base ns n = Inr old"
  shows "\<exists>new. param_at base' ns n = Inr new \<and> keeps_nonzero old new"
  using assms
proof (induction ms arbitrary: base old)
  case Nil
  then show ?case by (auto simp: keeps_nonzero_refl)
next
  case (Cons entry ms)
  obtain full_name mk where entry: "entry = (full_name, mk)" by (cases entry)
  from Cons.prems(1) entry obtain init m1 n1 base1 where
    one: "restore_param base m1 n1 init (Some mk) = Inr base1"
    and rest: "restore_masked snip ivs ms base1 = Inr base'"
    by (auto simp: Let_def split: option.splits sum.splits)
  from restore_param_keeps [OF one Cons.prems(2)] obtain mid where
    mid: "param_at base1 ns n = Inr mid" "keeps_nonzero old mid"
    by auto
  from Cons.IH [OF rest mid(1)] mid(2) show ?case
    by (auto intro: keeps_nonzero_trans)
qed

lemma restore_all_keeps:
  assumes "restore_all snip ivs base = Inr base'" and "param_at base ns n = Inr old"
  shows "\<exists>new. param_at base' ns n = Inr new \<and> keeps_nonzero old new"
  using assms
proof (induction ivs arbitrary: base old)
  case Nil
  then show ?case by (auto simp: keeps_nonzero_refl)
next
  case (Cons entry ivs)
  obtain full_name init where entry: "entry = (full_name, init)" by (cases entry)
  show ?case
  proof (cases "startswith full_name snip")
    case True
    with Cons.prems(1) entry obtain m1 n1 base1 where
      one: "restore_param base m1 n1 init None = Inr base1"
      and rest: "restore_all snip ivs base1 = Inr base'"
      by (auto simp: Let_def split: option.splits sum.splits)
    from restore_param_keeps [OF one Cons.prems(2)] obtain mid where
      mid: "param_at base1 ns n = Inr mid" "keeps_nonzero old mid"
      by auto
    from Cons.IH [OF rest mid(1)] mid(2) show ?thesis
      by (auto intro: keeps_nonzero_trans)
  next
    case False
    with Cons.prems entry have "restore_all snip ivs base = Inr base'"
      by simp
    from Cons.IH [OF this Cons.prems(2)] show ?thesis .
  qed
qed

lemma rsplit_dot_inj: "rsplit_dot s = Some mn \<Longrightarrow> rsplit_dot t = Some mn \<Longrightarrow> s = t"
  by (cases mn) (auto dest!: rsplit_dot_join)

lemma restore_masked_untouched:
  assumes "restore_masked snip ivs ms base = Inr base'"
    and "\<forall>entry \<in> set ms. rsplit_dot (fst entry) \<noteq> Some (m, n)"
  shows "param_data base' m n = param_data base m n"
  using assms
proof (induction ms arbitrary: base)
  case Nil
  then show ?case by simp
next
  case (Cons entry ms)
  obtain full_name mk where entry: "entry = (full_name, mk)" by (cases entry)
  from Cons.prems(1) entry obtain init m1 n1 base1 where
    rs: "rsplit_dot full_name = Some (m1, n1)"
    and one: "restore_param base m1 n1 init (Some mk) = Inr base1"
    and rest: "restore_masked snip ivs ms base1 = Inr base'"
    by (auto simp: Let_def split: option.splits sum.splits)
  from Cons.prems(2) entry rs have "(m, n) \<noteq> (m1, n1)"
    by auto
  from restore_param_read(1) [OF one this] Cons.IH [OF rest] Cons.prems(2) show ?case
    by simp
qed

lemma restore_masked_restores:
  assumes "restore_masked snip ivs ms base = Inr base'"
    and "distinct (map fst ms)" and "(full_name, mk) \<in> set ms"
  shows "\<exists>m n init old new. rsplit_dot full_name = Some (m, n) \<and>
           map_of ivs ((if snip \<noteq> [] then snip @ ''.'' else []) @ full_name) = Some init \<and>
           param_data base m n = Inr old \<and> restore_values init old (Some mk) = Inr new \<and>
           param_data base' m n = Inr new"
  using assms
proof (induction ms arbitrary: base)
  case Nil
  then show ?case by simp
next
  case (Cons entry ms)
  obtain name1 mk1 where entry: "entry = (name1, mk1)" by (cases entry)
  from Cons.prems(1) entry obtain init m1 n1 base1 where
    iv: "map_of ivs ((if snip \<noteq> [] then snip @ ''.'' else []) @ name1) = Some init"
    and rs: "rsplit_dot name1 = Some (m1, n1)"
    and one: "restore_param base m1 n1 init (Some mk1) = Inr base1"
    and rest: "restore_masked snip ivs ms base1 = Inr base'"
    by (auto simp: Let_def split: option.splits sum.splits)
  show ?case
  proof (cases "(full_name, mk) = entry")
    case True
    from restore_param_read(2) [OF one] obtain old new where
      on: "param_data base m1 n1 = Inr old" "restore_values init old (Some mk1) = Inr new"
        "param_data base1 m1 n1 = Inr new"
      by auto
    have "\<forall>e \<in> set ms. rsplit_dot (fst e) \<noteq> Some (m1, n1)"
    proof
      fix e assume e: "e \<in> set ms"
      with Cons.prems(2) entry have "fst e \<noteq> name1"
        by auto
      with rs show "rsplit_dot (fst e) \<noteq> Some (m1, n1)"
        by (auto dest: rsplit_dot_inj)
    qed
    from restore_masked_untouched [OF rest this] on True entry iv rs show ?thesis
      by auto
  next
    case False
    with Cons.prems(3) have mem: "(full_name, mk) \<in> set ms"
      by simp
    from Cons.prems(2) have "distinct (map fst ms)"
      by simp
    from Cons.IH [OF rest this mem] obtain m n init' old new where
      r: "rsplit_dot full_name = Some (m, n)"
        "map_of ivs ((if snip \<noteq> [] then snip @ ''.'' else []) @ full_name) = Some init'"
        "param_data base1 m n = Inr old" "restore_values init' old (Some mk) = Inr new"
        "param_data base' m n = Inr new"
      by auto
    from mem Cons.prems(2) entry have "full_name \<noteq> name1"
      by force
    with r(1) rs have "(m, n) \<noteq> (m1, n1)"
      by (auto dest: rsplit_dot_inj)
    from restore_param_read(1) [OF one this] r(3) have "param_data base m n = Inr old"
      by simp
    with r show ?thesis
      by blast
  qed
qed

text \<open>
  The branch with a mask builds the key of the initial values as
  \<^verbatim>\<open>snip_module_name + '.' + full_name\<close>. Whenever \<^verbatim>\<open>restore_init\<close> returns, every
  tensor of the pruned module keeps its nonzero elements, and every masked parameter has
  each element that was zero and that the mask marks active set to the initial value of
  its own entry at that position (values are reals here, so an initial value times zero
  is zero).
\<close>

lemma restore_init_masked_branch:
  assumes run: "restore_init d self = Inr self'" and iv: "init_values_file d = Some ivs"
  shows "(\<forall>names n old. param_at (module_to_snip self) names n = Inr old \<longrightarrow>
            (\<exists>new. param_at (module_to_snip self') names n = Inr new \<and> keeps_nonzero old new)) \<and>
         (\<forall>ms full_name mk.
            current_masks self = Some ms \<and> distinct (map fst ms) \<and> (full_name, mk) \<in> set ms \<longrightarrow>
            (\<exists>m n init old new.
               rsplit_dot full_name = Some (m, n) \<and>
               map_of ivs ((if snip_module_name self \<noteq> [] then snip_module_name self @ ''.''
                            else []) @ full_name) = Some init \<and>
               param_data (module_to_snip self) m n = Inr old \<and>
               param_data (module_to_snip self') m n = Inr new \<and>
               (\<forall>i < length old. old ! i = 0 \<and> mk ! i \<longrightarrow> new ! i = init ! i)))"
proof (intro conjI allI impI)
  fix names n old
  assume old: "param_at (module_to_snip self) names n = Inr old"
  from run iv have "restore_all (snip_module_name self) ivs (module_to_snip self)
                      = Inr (module_to_snip self') \<or>
                    (\<exists>ms. restore_masked (snip_module_name self) ivs ms (module_to_snip self)
                      = Inr (module_to_snip self'))"
    by (auto simp: restore_init_def split: option.splits sum.splits)
  with old show "\<exists>new. param_at (module_to_snip self') names n = Inr new \<and> keeps_nonzero old new"
    by (auto dest: restore_all_keeps restore_masked_keeps)
next
  fix ms full_name mk
  assume a: "current_masks self = Some ms \<and> distinct (map fst ms) \<and> (full_name, mk) \<in> set ms"
  with run iv have r: "restore_masked (snip_module_name self) ivs ms (module_to_snip self)
                      = Inr (module_to_snip self')"
    by (auto simp: restore_init_def split: option.splits sum.splits)
  from a have "distinct (map fst ms)" and "(full_name, mk) \<in> set ms"
    by simp_all
  from restore_masked_restores [OF r this] obtain m n init old new where
    f: "rsplit_dot full_name = Some (m, n)"
      "map_of ivs ((if snip_module_name self \<noteq> [] then snip_module_name self @ ''.''
                            else []) @ full_name) = Some init"
      "param_data (module_to_snip self) m n = Inr old"
      "restore_values init old (Some mk) = Inr new"
      "param_data (module_to_snip self') m n = Inr new"
    by blast
  have "\<forall>i < length old. old ! i = 0 \<and> mk ! i \<longrightarrow> new ! i = init ! i"
    using restore_values_elem(3) [OF f(4)] by simp
  with f show "\<exists>m n init old new.
               rsplit_dot full_name = Some (m, n) \<and>
               map_of ivs ((if snip_module_name self \<noteq> [] then snip_module_name self @ ''.''
                            else []) @ full_name) = Some init \<and>
               param_data (module_to_snip self) m n = Inr old \<and>
               param_data (module_to_snip self') m n = Inr new \<and>
               (\<forall>i < length old. old ! i = 0 \<and> mk ! i \<longrightarrow> new ! i = init ! i)"
    by blast
qed

text \<open>
  The branch without a mask, on a parameter that the pruned module owns directly: the
  module part of \<^verbatim>\<open>'fc.weight'\<close> is \<^verbatim>\<open>'fc'\<close>, nothing is left of it after the prefix
  is dropped, and \<^verbatim>\<open>get_module_by_name(module_to_snip, '')\<close> looks up the attribute
  \<^verbatim>\<open>''\<close>. Nothing is restored.
\<close>

lemma restore_init_direct_parameter_raises:
  "snip_module_name ex_leaf = ''fc'' \<and> current_masks ex_leaf = None \<and>
   init_values_file ex_disk = Some [(''fc.weight'', [1, 2, 3, 4])] \<and>
   getattr (module_to_snip ex_leaf) ''weight'' = Inr (ATensor [0, 7, 0, 0]) \<and>
   restore_init ex_disk ex_leaf = Inl AttributeError"
  by (simp add: restore_defs ex_leaf_def ex_disk_def startswith_def)

text \<open>
  C4. The claim: \<^verbatim>\<open>restore_init\<close> never modifies a nonzero element and sets every
  zero element that is active (every zero element when no mask is active) to the value of
  InitialValues at that position. The code, without a mask, selects the entries of the
  initial values by \<^verbatim>\<open>full_name.startswith(self.snip_module_name)\<close>, without the dot,
  and drops \<^verbatim>\<open>len(snip_module_name) + 1\<close> characters. With \<^verbatim>\<open>enc\<close> pruned, the entry
  \<^verbatim>\<open>enc_fc.weight\<close> of a sibling module passes the test and is taken for
  \<^verbatim>\<open>fc.weight\<close> of the pruned module: the zero elements of \<^verbatim>\<open>enc.fc.weight\<close> receive
  the sibling's initial values 9, not their own 1, 3 and 4, and the entry
  \<^verbatim>\<open>enc.fc.weight\<close> that follows finds no zero left.
\<close>

theorem C4_restore_init_takes_other_entry:
  "get_module_to_snip ex_enc_model ''enc'' = Inr (module_to_snip ex_enc) \<and>
   snip_module_name ex_enc = ''enc'' \<and> current_masks ex_enc = None \<and>
   init_values_file ex_enc_disk
     = Some [(''enc_fc.weight'', [9, 9, 9, 9]), (''enc.fc.weight'', [1, 2, 3, 4])] \<and>
   param_data (module_to_snip ex_enc) ''fc'' ''weight'' = Inr [0, 7, 0, 0] \<and>
   (\<exists>self'. restore_init ex_enc_disk ex_enc = Inr self' \<and>
             param_data (module_to_snip self') ''fc'' ''weight'' = Inr [9, 7, 9, 9])"
  by (simp add: restore_defs ex_enc_def ex_enc_disk_def ex_enc_model_def get_module_to_snip_def
        startswith_def)

lemma restore_param_resolves:
  assumes "restore_param base m1 n1 init mk = Inr base1"
  shows "isl (param_data base1 m n) = isl (param_data base m n)"
proof (cases "(m, n) = (m1, n1)")
  case True
  with restore_param_read(2) [OF assms] show ?thesis by auto
next
  case False
  with restore_param_read(1) [OF assms] show ?thesis by simp
qed

lemma restore_masked_raises:
  assumes "(full_name, mk) \<in> set ms"
    and "rsplit_dot full_name = None \<or>
         map_of ivs ((if snip \<noteq> [] then snip @ ''.'' else []) @ full_name) = None \<or>
         (\<exists>m n. rsplit_dot full_name = Some (m, n) \<and> isl (param_data base m n))"
  shows "isl (restore_masked snip ivs ms base)"
  using assms
proof (induction ms arbitrary: base)
  case Nil
  then show ?case by simp
next
  case (Cons entry ms)
  obtain name1 mk1 where entry: "entry = (name1, mk1)" by (cases entry)
  show ?case
  proof (cases "(full_name, mk) = entry")
    case True
    with Cons.prems(2) entry show ?thesis
      by (auto simp: Let_def restore_param_def split: option.splits sum.splits)
  next
    case False
    with Cons.prems(1) have mem: "(full_name, mk) \<in> set ms" by simp
    show ?thesis
    proof (cases "isl (restore_masked snip ivs (entry # ms) base)")
      case True
      then show ?thesis .
    next
      case False
      with entry obtain init m1 n1 base1 where
        one: "restore_param base m1 n1 init (Some mk1) = Inr base1"
        and rest: "restore_masked snip ivs (entry # ms) base = restore_masked snip ivs ms base1"
        by (auto simp: Let_def split: option.splits sum.splits)
      from Cons.prems(2) restore_param_resolves [OF one] have
        "rsplit_dot full_name = None \<or>
         map_of ivs ((if snip \<noteq> [] then snip @ ''.'' else []) @ full_name) = None \<or>
         (\<exists>m n. rsplit_dot full_name = Some (m, n) \<and> isl (param_data base1 m n))"
        by auto
      from Cons.IH [OF mem this] rest show ?thesis
        by simp
    qed
  qed
qed

lemma restore_all_raises:
  assumes "(full_name, init) \<in> set ivs" and "startswith full_name snip"
    and "local_name snip full_name = None \<or>
         (\<exists>m n. local_name snip full_name = Some (m, n) \<and> isl (param_data base m n))"
  shows "isl (restore_all snip ivs base)"
  using assms
proof (induction ivs arbitrary: base)
  case Nil
  then show ?case by simp
next
  case (Cons entry ivs)
  obtain name1 init1 where entry: "entry = (name1, init1)" by (cases entry)
  show ?case
  proof (cases "(full_name, init) = entry")
    case True
    with Cons.prems(2,3) entry show ?thesis
      by (auto simp: Let_def restore_param_def local_name_def split: option.splits sum.splits)
  next
    case False
    with Cons.prems(1) have mem: "(full_name, init) \<in> set ivs" by simp
    show ?thesis
    proof (cases "startswith name1 snip")
      case False
      with Cons.IH [OF mem Cons.prems(2,3)] entry show ?thesis
        by simp
    next
      case True
      note sw = True
      show ?thesis
      proof (cases "isl (restore_all snip (entry # ivs) base)")
        case True
        then show ?thesis .
      next
        case False
        with entry sw obtain m1 n1 base1 where
          one: "restore_param base m1 n1 init1 None = Inr base1"
          and rest: "restore_all snip (entry # ivs) base = restore_all snip ivs base1"
          by (auto simp: Let_def split: option.splits sum.splits)
        from Cons.prems(3) restore_param_resolves [OF one] have
          "local_name snip full_name = None \<or>
           (\<exists>m n. local_name snip full_name = Some (m, n) \<and> isl (param_data base1 m n))"
          by auto
        from Cons.IH [OF mem Cons.prems(2) this] rest show ?thesis
          by simp
      qed
    qed
  qed
qed

text \<open>
  C9 as claimed: an unresolved submodule name raises and no fallback is substituted. The
  model has no attribute \<^verbatim>\<open>encoder\<close>; \<^verbatim>\<open>get_module_to_snip\<close> returns the whole model.
\<close>

theorem C9_fallback_counterexample:
  "get_module_by_name ex_model ''encoder'' = Inl AttributeError \<and>
   get_module_to_snip ex_model ''encoder'' = Inr ex_model"
  by (simp add: get_module_to_snip_def get_module_by_name_def getattr_def ex_model_def)

text \<open>
  C9 (as amended). \<^verbatim>\<open>get_module_by_name\<close> fails only with \<open>AttributeError\<close>, and then
  \<^verbatim>\<open>get_module_to_snip\<close> returns the model itself. \<^verbatim>\<open>restore_init\<close> raises whenever
  a name it has to process has no dot, has no initial values (with a mask), or does not
  resolve to a tensor of the pruned module: no such name is skipped.
\<close>

theorem C9_unresolved_names:
  "(\<forall>e. get_module_by_name model access_string = Inl e \<longrightarrow>
        e = AttributeError \<and> get_module_to_snip model access_string = Inr model) \<and>
   (\<forall>ivs ms full_name mk.
      init_values_file d = Some ivs \<and> current_masks self = Some ms \<and> (full_name, mk) \<in> set ms \<and>
      (rsplit_dot full_name = None \<or>
       map_of ivs ((if snip_module_name self \<noteq> [] then snip_module_name self @ ''.'' else [])
                   @ full_name) = None \<or>
       (\<exists>m n. rsplit_dot full_name = Some (m, n) \<and> isl (param_data (module_to_snip self) m n)))
      \<longrightarrow> isl (restore_init d self)) \<and>
   (\<forall>ivs full_name init.
      init_values_file d = Some ivs \<and> current_masks self = None \<and> (full_name, init) \<in> set ivs \<and>
      startswith full_name (snip_module_name self) \<and>
      (local_name (snip_module_name self) full_name = None \<or>
       (\<exists>m n. local_name (snip_module_name self) full_name = Some (m, n) \<and>
              isl (param_data (module_to_snip self) m n)))
      \<longrightarrow> isl (restore_init d self))"
proof (intro conjI allI impI)
  fix e assume e: "get_module_by_name model access_string = Inl e"
  then show "e = AttributeError"
    by (simp add: get_module_by_name_def reduce_getattr_error)
  with e show "get_module_to_snip model access_string = Inr model"
    by (simp add: get_module_to_snip_def)
next
  fix ivs ms full_name mk
  assume a: "init_values_file d = Some ivs \<and> current_masks self = Some ms \<and>
      (full_name, mk) \<in> set ms \<and>
      (rsplit_dot full_name = None \<or>
       map_of ivs ((if snip_module_name self \<noteq> [] then snip_module_name self @ ''.'' else [])
                   @ full_name) = None \<or>
       (\<exists>m n. rsplit_dot full_name = Some (m, n) \<and> isl (param_data (module_to_snip self) m n)))"
  then have "isl (restore_masked (snip_module_name self) ivs ms (module_to_snip self))"
    by (intro restore_masked_raises [of full_name mk]) simp_all
  with a show "isl (restore_init d self)"
    by (auto simp: restore_init_def split: sum.splits)
next
  fix ivs full_name init
  assume a: "init_values_file d = Some ivs \<and> current_masks self = None \<and>
      (full_name, init) \<in> set ivs \<and> startswith full_name (snip_module_name self) \<and>
      (local_name (snip_module_name self) full_name = None \<or>
       (\<exists>m n. local_name (snip_module_name self) full_name = Some (m, n) \<and>
              isl (param_data (module_to_snip self) m n)))"
  then have "isl (restore_all (snip_module_name self) ivs (module_to_snip self))"
    by (intro restore_all_raises [of full_name init]) simp_all
  with a show "isl (restore_init d self)"
    by (auto simp: restore_init_def split: sum.splits)
qed

theorem C9_unresolved_witness:
  "current_masks ex_misnamed = Some [(''fc.bias'', [True])] \<and>
   rsplit_dot ''fc.bias'' = Some (''fc'', ''bias'') \<and>
   param_data (module_to_snip ex_misnamed) ''fc'' ''bias'' = Inl AttributeError \<and>
   isl (restore_init ex_disk_bias ex_misnamed) \<and>
   restore_init ex_disk_bias ex_misnamed = Inl AttributeError"
proof -
  have iv: "init_values_file ex_disk_bias
              = Some [(''fc.weight'', [1, 2, 3, 4]), (''fc.bias'', [5])]"
    by (simp add: ex_disk_bias_def)
  have ms: "current_masks ex_misnamed = Some [(''fc.bias'', [True])]"
    by (simp add: ex_misnamed_def)
  have rs: "rsplit_dot ''fc.bias'' = Some (''fc'', ''bias'')"
    by (simp add: rsplit_dot_def)
  have un: "param_data (module_to_snip ex_misnamed) ''fc'' ''bias'' = Inl AttributeError"
    by (simp add: restore_defs ex_misnamed_def ex_pruned_def)
  from C9_unresolved_names [of ex_model "''encoder''" ex_disk_bias ex_misnamed] iv ms rs un
  have "isl (restore_init ex_disk_bias ex_misnamed)"
    by fastforce
  moreover have "restore_init ex_disk_bias ex_misnamed = Inl AttributeError"
    by (simp add: restore_defs ex_misnamed_def ex_pruned_def ex_disk_bias_def)
  ultimately show ?thesis
    using ms rs un by simp
qed


end
